theory Spec2Isabelle
  imports Main
begin

section \<open>JavaScript values that the game engines read and write\<close>

text \<open>
  A board cell holds \<^verbatim>\<open>null\<close> or the index of the player who owns it. Reading an
  array yields a value of the language: \<^verbatim>\<open>undefined\<close> outside the array,
  \<^verbatim>\<open>null\<close> for an empty cell, the number otherwise. Strict comparison
  (\<^verbatim>\<open>===\<close>, \<^verbatim>\<open>!==\<close>) on these values is equality of \<open>jsval\<close>.
\<close>

datatype jsval = Undefined | Null | Num nat

type_synonym cell = "nat option"

fun ofCell :: "cell \<Rightarrow> jsval" where
  "ofCell None = Null"
| "ofCell (Some p) = Num p"

definition at :: "cell list \<Rightarrow> int \<Rightarrow> jsval" where
  \<comment> \<open>\<^verbatim>\<open>arr[i]\<close> for an integer \<open>i\<close>: \<^verbatim>\<open>undefined\<close> when \<open>i\<close> is no index of the array\<close>
  "at arr i = (if 0 \<le> i \<and> i < int (length arr) then ofCell (arr ! nat i) else Undefined)"

datatype status = waiting | playing | won | draw

text \<open>
  The state object of both games has the fields \<^verbatim>\<open>board\<close>, \<^verbatim>\<open>currentPlayer\<close>,
  \<^verbatim>\<open>winner\<close>, \<^verbatim>\<open>status\<close>, followed by the highlight of the game
  (\<^verbatim>\<open>winningPattern\<close> or \<^verbatim>\<open>winningCells\<close>). The board is a flat array of nine cells in
  tic-tac-toe and an array of seven columns of six cells in connect-four.
\<close>

record 'b GameState =
  board :: 'b
  currentPlayer :: nat
  winner :: jsval
  status :: status

text \<open>
  \<^verbatim>\<open>makeMove\<close> returns an object reference: either the very object it was given, or an
  object it has just allocated. The caller tells the two apart with \<^verbatim>\<open>!==\<close>; a newly
  allocated object is identical to no object that existed before the call, whatever its
  contents are.
\<close>

datatype 's returned = SameObject | NewObject 's

fun stateAfter :: "'s \<Rightarrow> 's returned \<Rightarrow> 's" where
  "stateAfter gameState SameObject = gameState"
| "stateAfter gameState (NewObject newGameState) = newGameState"

text \<open>
  In a store of objects (a list, the address of an object being its position) the call
  returns the reference it was given and leaves the store as it is, or it puts a new
  object into the store and returns the address of that object.
\<close>

fun returnedRef :: "'s list \<Rightarrow> nat \<Rightarrow> 's returned \<Rightarrow> 's list \<times> nat" where
  "returnedRef store ref SameObject = (store, ref)"
| "returnedRef store ref (NewObject newGameState) = (store @ [newGameState], length store)"

text \<open>
  \<^verbatim>\<open>checkGameOver\<close> returns \<^verbatim>\<open>{ isOver: false }\<close> or an object with \<^verbatim>\<open>isOver: true\<close>,
  a status, a winner and a highlight.
\<close>

datatype 'h gameOverResult = NotOver | Over status jsval "'h option"

text \<open>
  \<^verbatim>\<open>getPlayerSetup\<close> returns an object with one field, \<^verbatim>\<open>symbol\<close> in tic-tac-toe and
  \<^verbatim>\<open>color\<close> in connect-four.
\<close>

datatype playerSetup = symbol string | color string


section \<open>TicTacToeGame\<close>

record ttt_state = "cell list GameState" +
  winningPattern :: "int list option"

definition ttt_init :: ttt_state where
  "ttt_init = \<lparr> board = replicate 9 None, currentPlayer = 0, winner = Null,
                status = waiting, winningPattern = None \<rparr>"

text \<open>
  A move carries the number found in \<^verbatim>\<open>move.index\<close>. There is no test that the number
  is an index of the board: the third test reads the array where the move says.
\<close>

definition ttt_isValidMove :: "ttt_state \<Rightarrow> nat \<Rightarrow> int \<Rightarrow> bool" where
  "ttt_isValidMove gameState playerIndex move =
     (if currentPlayer gameState \<noteq> playerIndex then False
      else if status gameState \<noteq> playing then False
      else if at (board gameState) move \<noteq> Null then False
      else True)"

definition ttt_getNextPlayer :: "ttt_state \<Rightarrow> nat" where
  "ttt_getNextPlayer gameState = (if currentPlayer gameState = 0 then 1 else 0)"

definition winPatterns :: "int list list" where
  "winPatterns = [[0, 1, 2], [3, 4, 5], [6, 7, 8],
                  [0, 3, 6], [1, 4, 7], [2, 5, 8],
                  [0, 4, 8], [2, 4, 6]]"

definition lineOwned :: "cell list \<Rightarrow> int \<Rightarrow> int \<Rightarrow> int \<Rightarrow> bool" where
  \<comment> \<open>the test inside the loop over the patterns\<close>
  "lineOwned b a b' c = (at b a \<noteq> Null \<and> at b a = at b b' \<and> at b a = at b c)"

text \<open>
  The loop over \<^verbatim>\<open>winPatterns\<close>, each pattern destructured into \<^verbatim>\<open>[a, b, c]\<close>. The result is
  the object returned from inside the loop, if any. Every pattern of the source has three
  elements; the last equation is there for the other shapes of a list only.
\<close>

fun ttt_scan :: "cell list \<Rightarrow> int list list \<Rightarrow> int list gameOverResult option" where
  "ttt_scan b [] = None"
| "ttt_scan b ([a, b', c] # rest) =
     (if lineOwned b a b' c then Some (Over won (at b a) (Some [a, b', c]))
      else ttt_scan b rest)"
| "ttt_scan b (pattern # rest) = ttt_scan b rest"

definition ttt_checkGameOver :: "ttt_state \<Rightarrow> int list gameOverResult" where
  "ttt_checkGameOver gameState =
     (case ttt_scan (board gameState) winPatterns of
        Some r \<Rightarrow> r
      | None \<Rightarrow>
          if None \<notin> set (board gameState) then Over draw Null None
          else NotOver)"

text \<open>
  \<^verbatim>\<open>makeMove\<close> in two parts: the test of \<^verbatim>\<open>isValidMove\<close>, after which the object given is
  returned as it is, and the construction of the new object. The write
  \<^verbatim>\<open>newGameState.board[move.index] = playerIndex\<close> happens only after the read at the same
  index has returned \<^verbatim>\<open>null\<close>, that is at an index of the board.
\<close>

definition ttt_newGameState :: "ttt_state \<Rightarrow> nat \<Rightarrow> int \<Rightarrow> ttt_state" where
  \<comment> \<open>the object \<^verbatim>\<open>makeMove\<close> builds once the move has passed \<^verbatim>\<open>isValidMove\<close>\<close>
  "ttt_newGameState gameState playerIndex move =
     (let newGameState = gameState \<lparr> board := (board gameState)[nat move := Some playerIndex] \<rparr>
      in case ttt_checkGameOver newGameState of
           Over st w pat \<Rightarrow> newGameState \<lparr> winner := w, status := st, winningPattern := pat \<rparr>
         | NotOver \<Rightarrow> newGameState \<lparr> currentPlayer := ttt_getNextPlayer newGameState \<rparr>)"

definition ttt_makeMove :: "ttt_state \<Rightarrow> nat \<Rightarrow> int \<Rightarrow> ttt_state returned" where
  "ttt_makeMove gameState playerIndex move =
     (if \<not> ttt_isValidMove gameState playerIndex move then SameObject
      else NewObject (ttt_newGameState gameState playerIndex move))"

definition ttt_getMaxPlayers :: nat where
  "ttt_getMaxPlayers = 2"

definition ttt_getPlayerSetup :: "nat \<Rightarrow> playerSetup" where
  "ttt_getPlayerSetup playerIndex = symbol (if playerIndex = 0 then ''X'' else ''O'')"


section \<open>Connect4Game\<close>

text \<open>
  The board is an array of seven columns; a column is an array of six cells, index 0 at
  the top and index 5 at the bottom. A cell is named by its column \<open>x\<close> and its row \<open>y\<close>.
\<close>

record c4_state = "cell list list GameState" +
  winningCells :: "(int \<times> int) list option"

definition c4_init :: c4_state where
  "c4_init = \<lparr> board = replicate 7 (replicate 6 None), currentPlayer = 0, winner = Null,
               status = waiting, winningCells = None \<rparr>"

definition cellAt :: "cell list list \<Rightarrow> int \<Rightarrow> int \<Rightarrow> jsval" where
  \<comment> \<open>\<^verbatim>\<open>board[x][y]\<close>. The source reads a column only after testing \<open>0 \<le> x < 7\<close>, so on a
      board of seven columns the last branch is not taken (there the read would throw).\<close>
  "cellAt b x y = (if 0 \<le> x \<and> x < int (length b) then at (b ! nat x) y else Undefined)"

definition wfBoard :: "cell list list \<Rightarrow> bool" where
  \<comment> \<open>the shape \<^verbatim>\<open>init\<close> creates and every copy made by \<^verbatim>\<open>makeMove\<close> keeps\<close>
  "wfBoard b = (length b = 7 \<and> list_all (\<lambda>column. length column = 6) b)"

text \<open>
  A move carries the number found in \<^verbatim>\<open>move.column\<close>: in this section the column of a
  move, and with it \<^verbatim>\<open>lastColumn\<close>, is a number. What \<^verbatim>\<open>checkGameOver\<close> does with a column
  that is a string is the matter of the next section.
\<close>

definition c4_isValidMove :: "c4_state \<Rightarrow> nat \<Rightarrow> int \<Rightarrow> bool" where
  "c4_isValidMove gameState playerIndex move =
     (if currentPlayer gameState \<noteq> playerIndex then False
      else if status gameState \<noteq> playing then False
      else if move < 0 \<or> move \<ge> 7 then False
      else if cellAt (board gameState) move 0 \<noteq> Null then False
      else True)"

definition c4_getNextPlayer :: "c4_state \<Rightarrow> nat" where
  "c4_getNextPlayer gameState = (if currentPlayer gameState = 0 then 1 else 0)"

text \<open>
  The loop of \<^verbatim>\<open>makeMove\<close> that finds the landing row: \<open>r\<close> runs from 5 down to 0 and
  stops at the first empty cell, which it fills. The last argument is \<open>r + 1\<close>; when it
  reaches 0 the loop has ended without a write and \<^verbatim>\<open>row\<close> keeps its initial value 0.
  The result is the board and \<^verbatim>\<open>row\<close>.
\<close>

fun dropLoop :: "cell list list \<Rightarrow> int \<Rightarrow> nat \<Rightarrow> nat \<Rightarrow> cell list list \<times> int" where
  "dropLoop b column playerIndex 0 = (b, 0)"
| "dropLoop b column playerIndex (Suc r) =
     (if cellAt b column (int r) = Null
      then (b[nat column := (b ! nat column)[r := Some playerIndex]], int r)
      else dropLoop b column playerIndex r)"

definition directions :: "(int \<times> int) list" where
  "directions = [(1, 0), (0, 1), (1, 1), (1, - 1)]"

text \<open>
  The \<^verbatim>\<open>while\<close> loop of \<^verbatim>\<open>checkGameOver\<close>: from \<open>(x, y)\<close> in steps of \<open>(sx, sy)\<close>, where
  \<open>sx = dx * multiplier\<close> and \<open>sy = dy * multiplier\<close>. The result is the list of cells the
  loop pushes onto \<^verbatim>\<open>winningCells\<close>.
\<close>

function scanLine ::
  "cell list list \<Rightarrow> nat \<Rightarrow> int \<Rightarrow> int \<Rightarrow> int \<Rightarrow> int \<Rightarrow> nat \<Rightarrow> (int \<times> int) list" where
  "scanLine b playerIndex x y sx sy count =
     (if 0 \<le> x \<and> x < 7 \<and> 0 \<le> y \<and> y < 6 \<and> cellAt b x y = Num playerIndex \<and> count < 3
      then (x, y) # scanLine b playerIndex (x + sx) (y + sy) sx sy (count + 1)
      else [])"
  by pat_completeness auto
termination
  by (relation "measure (\<lambda>(b, playerIndex, x, y, sx, sy, count). 3 - count)") auto

declare scanLine.simps [simp del]

definition lineCells ::
  "cell list list \<Rightarrow> nat \<Rightarrow> int \<Rightarrow> int \<Rightarrow> int \<Rightarrow> int \<Rightarrow> (int \<times> int) list" where
  \<comment> \<open>\<^verbatim>\<open>winningCells\<close> after the loop over the multipliers 1 and -1\<close>
  "lineCells b playerIndex lastColumn lastRow dx dy =
     (lastColumn, lastRow)
       # scanLine b playerIndex (lastColumn + dx * 1) (lastRow + dy * 1) (dx * 1) (dy * 1) 0
       @ scanLine b playerIndex (lastColumn + dx * (- 1)) (lastRow + dy * (- 1))
           (dx * (- 1)) (dy * (- 1)) 0"

fun c4_lines ::
  "cell list list \<Rightarrow> nat \<Rightarrow> int \<Rightarrow> int \<Rightarrow> (int \<times> int) list
     \<Rightarrow> (int \<times> int) list gameOverResult option" where
  "c4_lines b playerIndex lastColumn lastRow [] = None"
| "c4_lines b playerIndex lastColumn lastRow ((dx, dy) # rest) =
     (let winningCells = lineCells b playerIndex lastColumn lastRow dx dy
      in if length winningCells \<ge> 4 then Some (Over won (Num playerIndex) (Some winningCells))
         else c4_lines b playerIndex lastColumn lastRow rest)"

definition c4_checkGameOver ::
  "c4_state \<Rightarrow> int \<Rightarrow> int \<Rightarrow> nat \<Rightarrow> (int \<times> int) list gameOverResult" where
  "c4_checkGameOver gameState lastColumn lastRow playerIndex =
     (case c4_lines (board gameState) playerIndex lastColumn lastRow directions of
        Some r \<Rightarrow> r
      | None \<Rightarrow>
          if list_all (\<lambda>column. at column 0 \<noteq> Null) (board gameState) then Over draw Null None
          else NotOver)"

definition c4_newGameState :: "c4_state \<Rightarrow> nat \<Rightarrow> int \<Rightarrow> c4_state" where
  \<comment> \<open>the object \<^verbatim>\<open>makeMove\<close> builds once the move has passed \<^verbatim>\<open>isValidMove\<close>\<close>
  "c4_newGameState gameState playerIndex move =
     (let (b, row) = dropLoop (board gameState) move playerIndex 6;
          newGameState = gameState \<lparr> board := b \<rparr>
      in case c4_checkGameOver newGameState move row playerIndex of
           Over st w cells \<Rightarrow> newGameState \<lparr> winner := w, status := st, winningCells := cells \<rparr>
         | NotOver \<Rightarrow> newGameState \<lparr> currentPlayer := c4_getNextPlayer newGameState \<rparr>)"

definition c4_makeMove :: "c4_state \<Rightarrow> nat \<Rightarrow> int \<Rightarrow> c4_state returned" where
  "c4_makeMove gameState playerIndex move =
     (if \<not> c4_isValidMove gameState playerIndex move then SameObject
      else NewObject (c4_newGameState gameState playerIndex move))"

definition c4_getMaxPlayers :: nat where
  "c4_getMaxPlayers = 2"

definition c4_getPlayerSetup :: "nat \<Rightarrow> playerSetup" where
  "c4_getPlayerSetup playerIndex = color (if playerIndex = 0 then ''red'' else ''yellow'')"


section \<open>Connect4Game.checkGameOver for a column that is a string\<close>

text \<open>
  The server passes the move of a client to the game as it arrives, and nothing makes
  \<^verbatim>\<open>move.column\<close> a number. A string that names a column of the board, such as \<^verbatim>\<open>'3'\<close>,
  passes \<^verbatim>\<open>isValidMove\<close> and lands like the number: \<^verbatim>\<open>'3' < 0\<close> and \<^verbatim>\<open>'3' >= 7\<close> compare
  the number 3, and \<^verbatim>\<open>board['3']\<close> is \<^verbatim>\<open>board[3]\<close>. In \<^verbatim>\<open>checkGameOver\<close> the two part:
  \<^verbatim>\<open>lastColumn + dx * multiplier\<close> adds two numbers, but appends the number to a string
  (\<^verbatim>\<open>'3' + 1\<close> is \<^verbatim>\<open>'31'\<close>, \<^verbatim>\<open>'3' + -1\<close> is \<^verbatim>\<open>'3-1'\<close>). This section follows
  \<^verbatim>\<open>checkGameOver\<close> for a \<^verbatim>\<open>lastColumn\<close> that is a string of decimal digits and minus
  signs: no other character arises from the numeral of a column and the steps 1, 0 and
  -1. \<^verbatim>\<open>lastRow\<close> is the number that the loop of \<^verbatim>\<open>makeMove\<close> has found.
\<close>

text \<open>A call returns a value, or it throws a \<^verbatim>\<open>TypeError\<close> on reading a property of \<^verbatim>\<open>undefined\<close>.\<close>

datatype 'a outcome = Returns 'a | TypeError

definition isDigit :: "char \<Rightarrow> bool" where
  "isDigit c = (48 \<le> (of_char c :: int) \<and> (of_char c :: int) \<le> 57)"

definition decimal :: "string \<Rightarrow> int" where
  "decimal k = foldl (\<lambda>n c. 10 * n + (of_char c - 48)) 0 k"

text \<open>
  The string of an integer, which \<^verbatim>\<open>+\<close> appends to a string: the decimal digits, after a
  minus sign for a negative number. (\<^verbatim>\<open>0 * -1\<close> is the number -0, whose string is \<^verbatim>\<open>'0'\<close>
  like that of 0.)
\<close>

function digitsOf :: "nat \<Rightarrow> string" where
  "digitsOf n =
     (if n < 10 then [''0123456789'' ! n]
      else digitsOf (n div 10) @ [''0123456789'' ! (n mod 10)])"
  by pat_completeness auto
termination
  by (relation "measure id") auto

declare digitsOf.simps [simp del]

definition textOf :: "int \<Rightarrow> string" where
  "textOf i = (if i < 0 then CHR ''-'' # digitsOf (nat (- i)) else digitsOf (nat i))"

text \<open>
  \<^verbatim>\<open>x >= 0\<close> and \<^verbatim>\<open>x < 7\<close> compare the number that the string \<open>x\<close> converts to: 0 for the
  empty string, the value of the digits (leading zeros allowed) after an optional minus
  sign, and \<^verbatim>\<open>NaN\<close>, here \<open>None\<close>, for every other string of digits and minus signs. A
  comparison with \<^verbatim>\<open>NaN\<close> is false.
\<close>

definition toNumber :: "string \<Rightarrow> int option" where
  "toNumber x =
     (if x = [] then Some 0
      else if list_all isDigit x then Some (decimal x)
      else if hd x = CHR ''-'' \<and> tl x \<noteq> [] \<and> list_all isDigit (tl x) then Some (- decimal (tl x))
      else None)"

definition atLeast0 :: "string \<Rightarrow> bool" where
  \<comment> \<open>\<^verbatim>\<open>x >= 0\<close>\<close>
  "atLeast0 x = (case toNumber x of None \<Rightarrow> False | Some n \<Rightarrow> n \<ge> 0)"

definition below7 :: "string \<Rightarrow> bool" where
  \<comment> \<open>\<^verbatim>\<open>x < 7\<close>\<close>
  "below7 x = (case toNumber x of None \<Rightarrow> False | Some n \<Rightarrow> n < 7)"

definition columnNamed :: "cell list list \<Rightarrow> string \<Rightarrow> cell list option" where
  \<comment> \<open>\<^verbatim>\<open>board[x]\<close>: the property of the array whose name is \<open>x\<close>, that is the column whose
      index, written as a string, is \<open>x\<close>; \<open>None\<close> for \<^verbatim>\<open>undefined\<close> (\<^verbatim>\<open>board['01']\<close>)\<close>
  "columnNamed b x =
     (case find (\<lambda>i. textOf (int i) = x) [0..<length b] of
        None \<Rightarrow> None
      | Some i \<Rightarrow> Some (b ! i))"

text \<open>
  The \<^verbatim>\<open>while\<close> loop again. Its test reads \<^verbatim>\<open>board[x][y]\<close> once the four comparisons have
  passed, and the read throws when \<^verbatim>\<open>board[x]\<close> is \<^verbatim>\<open>undefined\<close>. \<^verbatim>\<open>x += dx * multiplier\<close>
  appends to the string.
\<close>

function scanLineString ::
  "cell list list \<Rightarrow> nat \<Rightarrow> string \<Rightarrow> int \<Rightarrow> int \<Rightarrow> int \<Rightarrow> nat
     \<Rightarrow> (string \<times> int) list outcome" where
  "scanLineString b playerIndex x y sx sy count =
     (if atLeast0 x \<and> below7 x \<and> 0 \<le> y \<and> y < 6
      then (case columnNamed b x of
              None \<Rightarrow> TypeError
            | Some column \<Rightarrow>
                if at column y = Num playerIndex \<and> count < 3
                then (case scanLineString b playerIndex (x @ textOf sx) (y + sy) sx sy (count + 1) of
                        TypeError \<Rightarrow> TypeError
                      | Returns cells \<Rightarrow> Returns ((x, y) # cells))
                else Returns [])
      else Returns [])"
  by pat_completeness auto
termination
  by (relation "measure (\<lambda>(b, playerIndex, x, y, sx, sy, count). 3 - count)") auto

declare scanLineString.simps [simp del]

definition lineCellsString ::
  "cell list list \<Rightarrow> nat \<Rightarrow> string \<Rightarrow> int \<Rightarrow> int \<Rightarrow> int \<Rightarrow> (string \<times> int) list outcome" where
  \<comment> \<open>\<^verbatim>\<open>winningCells\<close> after the loop over the multipliers 1 and -1\<close>
  "lineCellsString b playerIndex lastColumn lastRow dx dy =
     (case scanLineString b playerIndex (lastColumn @ textOf (dx * 1)) (lastRow + dy * 1)
             (dx * 1) (dy * 1) 0 of
        TypeError \<Rightarrow> TypeError
      | Returns ahead \<Rightarrow>
          (case scanLineString b playerIndex (lastColumn @ textOf (dx * (- 1)))
                  (lastRow + dy * (- 1)) (dx * (- 1)) (dy * (- 1)) 0 of
             TypeError \<Rightarrow> TypeError
           | Returns behind \<Rightarrow> Returns ((lastColumn, lastRow) # ahead @ behind)))"

fun c4_linesString ::
  "cell list list \<Rightarrow> nat \<Rightarrow> string \<Rightarrow> int \<Rightarrow> (int \<times> int) list
     \<Rightarrow> (string \<times> int) list gameOverResult option outcome" where
  "c4_linesString b playerIndex lastColumn lastRow [] = Returns None"
| "c4_linesString b playerIndex lastColumn lastRow ((dx, dy) # rest) =
     (case lineCellsString b playerIndex lastColumn lastRow dx dy of
        TypeError \<Rightarrow> TypeError
      | Returns cells \<Rightarrow>
          if length cells \<ge> 4 then Returns (Some (Over won (Num playerIndex) (Some cells)))
          else c4_linesString b playerIndex lastColumn lastRow rest)"

definition c4_checkGameOverString ::
  "c4_state \<Rightarrow> string \<Rightarrow> int \<Rightarrow> nat \<Rightarrow> (string \<times> int) list gameOverResult outcome" where
  "c4_checkGameOverString gameState lastColumn lastRow playerIndex =
     (case c4_linesString (board gameState) playerIndex lastColumn lastRow directions of
        TypeError \<Rightarrow> TypeError
      | Returns (Some r) \<Rightarrow> Returns r
      | Returns None \<Rightarrow>
          if list_all (\<lambda>column. at column 0 \<noteq> Null) (board gameState)
          then Returns (Over draw Null None)
          else Returns NotOver)"


section \<open>The game interface and the two games behind it\<close>

text \<open>
  The server calls a game through the methods of \<^verbatim>\<open>GameInterface\<close>; of these the socket
  handlers use \<^verbatim>\<open>init\<close>, \<^verbatim>\<open>makeMove\<close>, \<^verbatim>\<open>getMaxPlayers\<close> and \<^verbatim>\<open>getPlayerSetup\<close>. An
  instance is the record of these methods; \<^verbatim>\<open>init\<close> stands for the contents of the object
  that a call creates.
\<close>

record 's GameInterface =
  init :: 's
  makeMove :: "'s \<Rightarrow> nat \<Rightarrow> int \<Rightarrow> 's returned"
  getMaxPlayers :: nat
  getPlayerSetup :: "nat \<Rightarrow> playerSetup"

definition TicTacToeGame :: "ttt_state GameInterface" where
  "TicTacToeGame = \<lparr> init = ttt_init, makeMove = ttt_makeMove,
                      getMaxPlayers = ttt_getMaxPlayers, getPlayerSetup = ttt_getPlayerSetup \<rparr>"

definition Connect4Game :: "c4_state GameInterface" where
  "Connect4Game = \<lparr> init = c4_init, makeMove = c4_makeMove,
                     getMaxPlayers = c4_getMaxPlayers, getPlayerSetup = c4_getPlayerSetup \<rparr>"


section \<open>The rooms and the socket handlers\<close>

text \<open>
  A spectator is \<^verbatim>\<open>{ id, username }\<close>; a player has the index of the seat and the setup of
  the game in addition. \<open>sockId\<close> is the field \<^verbatim>\<open>id\<close>, the identifier of the socket;
  \<open>roomId\<close> is the field \<^verbatim>\<open>id\<close> of a room.
\<close>

record member =
  sockId :: string
  username :: string

record player = member +
  index :: nat
  playerInfo :: playerSetup

record 's room =
  roomId :: string
  gameType :: string
  gameInstance :: "'s GameInterface"
  players :: "player list"
  gameState :: 's
  spectators :: "member list"

text \<open>
  \<^verbatim>\<open>rooms\<close> is an object used as a dictionary: the list of its own properties in the order
  of their creation. The handlers are written once for every game: they are polymorphic
  in the state of the game, of which they touch the field \<^verbatim>\<open>status\<close> only, and they find
  the game of a room in the field \<^verbatim>\<open>gameInstance\<close> of the room. The table \<^verbatim>\<open>gameTypes\<close> is an
  argument of the one handler that reads it, \<^verbatim>\<open>createRoom\<close>. The entries of a table, like the
  rooms of a registry, have one type of state: hence one table for each game here, where
  the source has one table with both entries. What is proved of the handlers below is
  proved for every table and every type of state.
\<close>

type_synonym 's rooms = "(string \<times> 's room) list"

definition tttGameTypes :: "string \<Rightarrow> ttt_state GameInterface option" where
  "tttGameTypes = [''tic-tac-toe'' \<mapsto> TicTacToeGame]"

definition c4GameTypes :: "string \<Rightarrow> c4_state GameInterface option" where
  "c4GameTypes = [''connect4'' \<mapsto> Connect4Game]"

definition lookupRoom :: "'s rooms \<Rightarrow> string \<Rightarrow> 's room option" where
  \<comment> \<open>\<^verbatim>\<open>rooms[roomId]\<close>, \<open>None\<close> for \<^verbatim>\<open>undefined\<close>\<close>
  "lookupRoom rooms k = map_of rooms k"

fun setRoom :: "'s rooms \<Rightarrow> string \<Rightarrow> 's room \<Rightarrow> 's rooms" where
  \<comment> \<open>\<^verbatim>\<open>rooms[roomId] = room\<close>: an existing property keeps its place, a new one comes last\<close>
  "setRoom [] k r = [(k, r)]"
| "setRoom ((k', r') # rest) k r =
     (if k' = k then (k, r) # rest else (k', r') # setRoom rest k r)"

definition deleteRoom :: "'s rooms \<Rightarrow> string \<Rightarrow> 's rooms" where
  \<comment> \<open>\<^verbatim>\<open>delete rooms[roomId]\<close>\<close>
  "deleteRoom rooms k = filter (\<lambda>(k', r). k' \<noteq> k) rooms"

text \<open>
  \<^verbatim>\<open>for (const roomId in rooms)\<close> visits the keys that are array indices first, in
  ascending numeric order, then the other keys in the order of their creation. A key is
  an array index when it is the decimal numeral, without leading zeros, of a number below
  \<open>2\<^sup>3\<^sup>2 - 1\<close>.
\<close>

definition arrayIndex :: "string \<Rightarrow> int option" where
  "arrayIndex k =
     (if k \<noteq> [] \<and> list_all isDigit k \<and> (k = ''0'' \<or> hd k \<noteq> CHR ''0'') \<and> decimal k < 4294967295
      then Some (decimal k) else None)"

definition forInKeys :: "'s rooms \<Rightarrow> string list" where
  "forInKeys rooms =
     (let keys = map fst rooms
      in sort_key (\<lambda>k. the (arrayIndex k)) (filter (\<lambda>k. arrayIndex k \<noteq> None) keys)
           @ filter (\<lambda>k. arrayIndex k = None) keys)"

fun findIndex :: "('a \<Rightarrow> bool) \<Rightarrow> 'a list \<Rightarrow> nat option" where
  \<comment> \<open>\<^verbatim>\<open>arr.findIndex(f)\<close>, \<open>None\<close> for -1\<close>
  "findIndex f [] = None"
| "findIndex f (x # xs) = (if f x then Some 0 else map_option Suc (findIndex f xs))"

definition splice1 :: "nat \<Rightarrow> 'a list \<Rightarrow> 'a list" where
  \<comment> \<open>the array after \<^verbatim>\<open>arr.splice(i, 1)\<close>\<close>
  "splice1 i xs = take i xs @ drop (Suc i) xs"

text \<open>
  What a handler sends: \<^verbatim>\<open>socket.emit\<close> reaches the socket of the sender,
  \<^verbatim>\<open>io.to(roomId).emit\<close> every socket that has joined the room. A payload lists the fields
  of the message in the order of the source.
\<close>

datatype 's payload =
    error string
  | roomCreated string string nat playerSetup 's
  | joinedAsSpectator string string 's "player list"
  | spectatorJoined string
  | roomJoined string string nat playerSetup 's
  | gameStart 's "player list"
  | gameStateUpdate 's
  | gameReset 's
  | playerDisconnected string nat 's
  | spectatorLeft string

datatype 's emit = toSocket string "'s payload" | toRoom string "'s payload"

text \<open>
  Each handler takes the registry and the identifier of the socket that sent the event,
  and returns the registry and the messages sent, in order. \<open>rid\<close> is the \<^verbatim>\<open>roomId\<close> of the
  event and \<open>name\<close> its \<^verbatim>\<open>username\<close>; \<open>uuid\<close> is the string that \<^verbatim>\<open>uuidv4()\<close> returns during
  \<^verbatim>\<open>createRoom\<close>; the game type of the event is optional and defaults to tic-tac-toe. A
  room is an object that the handlers change in place: here the changed room is stored
  under its key again.
\<close>

definition onCreateRoom ::
  "(string \<Rightarrow> ('b, 'z) GameState_scheme GameInterface option) \<Rightarrow> ('b, 'z) GameState_scheme rooms
     \<Rightarrow> string \<Rightarrow> string \<Rightarrow> string \<Rightarrow> string option
     \<Rightarrow> ('b, 'z) GameState_scheme rooms \<times> ('b, 'z) GameState_scheme emit list" where
  "onCreateRoom gameTypes rooms socketId uuid name gameTypeArg =
     (let gameType = (case gameTypeArg of None \<Rightarrow> ''tic-tac-toe'' | Some g \<Rightarrow> g)
      in case gameTypes gameType of
           None \<Rightarrow> (rooms, [toSocket socketId (error (''Invalid game type: '' @ gameType))])
         | Some instance \<Rightarrow>
             let newId = take 6 uuid;
                 initialGameState = init instance;
                 playerSetup = getPlayerSetup instance 0
             in (setRoom rooms newId
                   \<lparr> roomId = newId, gameType = gameType, gameInstance = instance,
                     players = [\<lparr> sockId = socketId, username = name, index = 0,
                                  playerInfo = playerSetup \<rparr>],
                     gameState = initialGameState, spectators = [] \<rparr>,
                 [toSocket socketId
                    (roomCreated newId gameType 0 playerSetup initialGameState)]))"

definition onJoinRoom ::
  "('b, 'z) GameState_scheme rooms \<Rightarrow> string \<Rightarrow> string \<Rightarrow> string
     \<Rightarrow> ('b, 'z) GameState_scheme rooms \<times> ('b, 'z) GameState_scheme emit list" where
  "onJoinRoom rooms socketId rid name =
     (case lookupRoom rooms rid of
        None \<Rightarrow> (rooms, [toSocket socketId (error ''Room not found'')])
      | Some room \<Rightarrow>
          let maxPlayers = getMaxPlayers (gameInstance room)
          in if length (players room) \<ge> maxPlayers
             then (setRoom rooms rid
                     (room \<lparr> spectators :=
                               spectators room @ [\<lparr> sockId = socketId, username = name \<rparr>] \<rparr>),
                   [toSocket socketId
                      (joinedAsSpectator rid (gameType room) (gameState room) (players room)),
                    toRoom rid (spectatorJoined name)])
             else
               let playerIndex = length (players room);
                   playerSetup = getPlayerSetup (gameInstance room) playerIndex;
                   seated = room \<lparr> players :=
                              players room @ [\<lparr> sockId = socketId, username = name,
                                                index = playerIndex, playerInfo = playerSetup \<rparr>] \<rparr>;
                   room' = (if length (players seated) \<ge> 2
                            then seated \<lparr> gameState := (gameState seated) \<lparr> status := playing \<rparr> \<rparr>
                            else seated)
               in (setRoom rooms rid room',
                   [toSocket socketId
                      (roomJoined rid (gameType room') playerIndex playerSetup (gameState room')),
                    toRoom rid (gameStart (gameState room') (players room'))]))"

text \<open>
  In the handler of \<^verbatim>\<open>makeMove\<close> the test \<^verbatim>\<open>updatedGameState !== room.gameState\<close> compares
  the object returned with the object passed: it is true exactly when the object returned
  is a new one.
\<close>

definition onMakeMove ::
  "'s rooms \<Rightarrow> string \<Rightarrow> string \<Rightarrow> int \<Rightarrow> 's rooms \<times> 's emit list" where
  "onMakeMove rooms socketId rid move =
     (case lookupRoom rooms rid of
        None \<Rightarrow> (rooms, [])
      | Some room \<Rightarrow>
          (case find (\<lambda>p. sockId p = socketId) (players room) of
             None \<Rightarrow> (rooms, [])
           | Some player \<Rightarrow>
               let playerIndex = index player;
                   updatedGameState = makeMove (gameInstance room) (gameState room) playerIndex move
               in case updatedGameState of
                    SameObject \<Rightarrow> (rooms, [])
                  | NewObject newGameState \<Rightarrow>
                      (setRoom rooms rid (room \<lparr> gameState := newGameState \<rparr>),
                       [toRoom rid (gameStateUpdate newGameState)])))"

definition onResetGame ::
  "('b, 'z) GameState_scheme rooms \<Rightarrow> string \<Rightarrow> string
     \<Rightarrow> ('b, 'z) GameState_scheme rooms \<times> ('b, 'z) GameState_scheme emit list" where
  "onResetGame rooms socketId rid =
     (case lookupRoom rooms rid of
        None \<Rightarrow> (rooms, [])
      | Some room \<Rightarrow>
          let fresh = room \<lparr> gameState := init (gameInstance room) \<rparr>;
              room' = fresh \<lparr> gameState := (gameState fresh) \<lparr> status := playing \<rparr> \<rparr>
          in (setRoom rooms rid room', [toRoom rid (gameReset (gameState room'))]))"

text \<open>
  The loop of the \<^verbatim>\<open>disconnect\<close> handler over the keys still to visit. A room where the
  socket is a player ends the loop (\<^verbatim>\<open>break\<close>); a room where it is a spectator does not.
\<close>

fun disconnectLoop ::
  "string \<Rightarrow> string list \<Rightarrow> ('b, 'z) GameState_scheme rooms
     \<Rightarrow> ('b, 'z) GameState_scheme rooms \<times> ('b, 'z) GameState_scheme emit list" where
  "disconnectLoop socketId [] rooms = (rooms, [])"
| "disconnectLoop socketId (rid # rest) rooms =
     (case lookupRoom rooms rid of
        None \<Rightarrow> disconnectLoop socketId rest rooms
      | Some room \<Rightarrow>
          (case findIndex (\<lambda>p. sockId p = socketId) (players room) of
             Some playerIndex \<Rightarrow>
               let disconnectedPlayer = players room ! playerIndex;
                   left = room \<lparr> players := splice1 playerIndex (players room) \<rparr>
               in if length (players left) = 0 then (deleteRoom rooms rid, [])
                  else
                    let room' = left \<lparr> gameState := (gameState left) \<lparr> status := waiting \<rparr> \<rparr>
                    in (setRoom rooms rid room',
                        [toRoom rid (playerDisconnected (username disconnectedPlayer)
                                       (index disconnectedPlayer) (gameState room'))])
           | None \<Rightarrow>
               (case findIndex (\<lambda>s. sockId s = socketId) (spectators room) of
                  Some spectatorIndex \<Rightarrow>
                    let disconnectedSpectator = spectators room ! spectatorIndex;
                        room' = room \<lparr> spectators := splice1 spectatorIndex (spectators room) \<rparr>;
                        (rooms', out) = disconnectLoop socketId rest (setRoom rooms rid room')
                    in (rooms', toRoom rid (spectatorLeft (username disconnectedSpectator)) # out)
                | None \<Rightarrow> disconnectLoop socketId rest rooms)))"

definition onDisconnect ::
  "('b, 'z) GameState_scheme rooms \<Rightarrow> string
     \<Rightarrow> ('b, 'z) GameState_scheme rooms \<times> ('b, 'z) GameState_scheme emit list" where
  "onDisconnect rooms socketId = disconnectLoop socketId (forInKeys rooms) rooms"

text \<open>The events a socket sends, and the handler of each.\<close>

datatype event =
    CreateRoom string "string option" string
  | JoinRoom string string
  | MakeMove string int
  | ResetGame string
  | Disconnect

fun handle ::
  "(string \<Rightarrow> ('b, 'z) GameState_scheme GameInterface option) \<Rightarrow> ('b, 'z) GameState_scheme rooms
     \<Rightarrow> string \<Rightarrow> event
     \<Rightarrow> ('b, 'z) GameState_scheme rooms \<times> ('b, 'z) GameState_scheme emit list" where
  "handle gameTypes rooms socketId (CreateRoom name gameTypeArg uuid) =
     onCreateRoom gameTypes rooms socketId uuid name gameTypeArg"
| "handle gameTypes rooms socketId (JoinRoom rid name) = onJoinRoom rooms socketId rid name"
| "handle gameTypes rooms socketId (MakeMove rid move) = onMakeMove rooms socketId rid move"
| "handle gameTypes rooms socketId (ResetGame rid) = onResetGame rooms socketId rid"
| "handle gameTypes rooms socketId Disconnect = onDisconnect rooms socketId"


section \<open>What the claims speak of\<close>

text \<open>
  The definitions of this section are not taken from the source: they say what the
  properties below compare the code with, and they name the positions and the rooms that
  serve as instances.
\<close>

fun reportsWin :: "'h gameOverResult \<Rightarrow> bool" where
  \<comment> \<open>the result of \<^verbatim>\<open>checkGameOver\<close> has the status \<^verbatim>\<open>won\<close>\<close>
  "reportsWin NotOver = False"
| "reportsWin (Over st w h) = (st = won)"

subsection \<open>Tic-tac-toe: a triple owned by one player\<close>

definition ownedBy :: "cell list \<Rightarrow> int list \<Rightarrow> nat \<Rightarrow> bool" where
  \<comment> \<open>every cell of the triple \<open>t\<close> is non-empty and belongs to player \<open>p\<close>\<close>
  "ownedBy b t p = (\<forall>i \<in> set t. b ! nat i = Some p)"

definition indexTriple :: "nat \<Rightarrow> int list \<Rightarrow> bool" where
  \<comment> \<open>three indices of a board of \<open>n\<close> cells\<close>
  "indexTriple n t = (length t = 3 \<and> (\<forall>i \<in> set t. 0 \<le> i \<and> i < int n))"

subsection \<open>Connect-four: four in a row through a cell\<close>

definition ownedCell :: "cell list list \<Rightarrow> nat \<Rightarrow> int \<Rightarrow> int \<Rightarrow> bool" where
  \<comment> \<open>\<open>(x, y)\<close> is a cell of the board and belongs to player \<open>p\<close>\<close>
  "ownedCell b p x y = (0 \<le> x \<and> x < 7 \<and> 0 \<le> y \<and> y < 6 \<and> b ! nat x ! nat y = Some p)"

definition fourOnLine :: "cell list list \<Rightarrow> nat \<Rightarrow> int \<Rightarrow> int \<Rightarrow> int \<Rightarrow> int \<Rightarrow> bool" where
  \<comment> \<open>on the line through \<open>(x, y)\<close> with direction \<open>(dx, dy)\<close>, four contiguous cells, \<open>(x, y)\<close>
      the \<open>k\<close>-th of them, belong to \<open>p\<close>\<close>
  "fourOnLine b p x y dx dy =
     list_ex (\<lambda>k. list_all (\<lambda>j. ownedCell b p (x + (j - k) * dx) (y + (j - k) * dy)) [0, 1, 2, 3])
       [0, 1, 2, 3]"

definition fourThrough :: "cell list list \<Rightarrow> nat \<Rightarrow> int \<Rightarrow> int \<Rightarrow> bool" where
  "fourThrough b p x y = list_ex (\<lambda>(dx, dy). fourOnLine b p x y dx dy) directions"

text \<open>
  Four in a row anywhere on the board: four cells from \<open>(x, y)\<close> on in one of the four
  directions.
\<close>

definition fourAt :: "cell list list \<Rightarrow> nat \<Rightarrow> int \<Rightarrow> int \<Rightarrow> int \<Rightarrow> int \<Rightarrow> bool" where
  "fourAt b p x y dx dy = list_all (\<lambda>j. ownedCell b p (x + j * dx) (y + j * dy)) [0, 1, 2, 3]"

definition anyFour :: "cell list list \<Rightarrow> nat \<Rightarrow> bool" where
  "anyFour b p =
     list_ex (\<lambda>x. list_ex (\<lambda>y. list_ex (\<lambda>(dx, dy). fourAt b p x y dx dy) directions) [0..5]) [0..6]"

definition noFour :: "cell list list \<Rightarrow> bool" where
  "noFour b = (\<forall>p. \<not> anyFour b p)"

text \<open>
  Four contiguous cells somewhere on the line through \<open>(x, y)\<close> with direction \<open>(dx, dy)\<close>,
  the cell \<open>(x, y)\<close> among them or not: the four cells from \<open>(x + t * dx, y + t * dy)\<close> on,
  for some \<open>t\<close>. On a board of seven columns and six rows \<open>t\<close> lies between -6 and 6.
\<close>

definition fourAlong :: "cell list list \<Rightarrow> nat \<Rightarrow> int \<Rightarrow> int \<Rightarrow> int \<Rightarrow> int \<Rightarrow> bool" where
  "fourAlong b p x y dx dy = list_ex (\<lambda>t. fourAt b p (x + t * dx) (y + t * dy) dx dy) [- 6..6]"

definition lineHasFour :: "cell list list \<Rightarrow> nat \<Rightarrow> int \<Rightarrow> int \<Rightarrow> bool" where
  \<comment> \<open>one of the four lines through \<open>(x, y)\<close> contains four contiguous cells of \<open>p\<close>\<close>
  "lineHasFour b p x y = list_ex (\<lambda>(dx, dy). fourAlong b p x y dx dy) directions"

subsection \<open>Sequences of moves\<close>

fun playMoves ::
  "('s \<Rightarrow> nat \<Rightarrow> int \<Rightarrow> 's returned) \<Rightarrow> 's \<Rightarrow> (nat \<times> int) list \<Rightarrow> 's list" where
  \<comment> \<open>the states a game goes through when the moves \<open>(playerIndex, move)\<close> are made in turn\<close>
  "playMoves mk s [] = [s]"
| "playMoves mk s ((p, m) # ms) = s # playMoves mk (stateAfter s (mk s p m)) ms"



definition sameColumnDrops :: "int \<Rightarrow> (nat \<times> int) list" where
  \<comment> \<open>seven drops into one column, the two players taking turns, player 0 first\<close>
  "sameColumnDrops column =
     [(0, column), (1, column), (0, column), (1, column), (0, column), (1, column), (0, column)]"

definition stack :: "cell list \<Rightarrow> int \<Rightarrow> nat \<Rightarrow> c4_state" where
  \<comment> \<open>a game in progress with pieces in one column only\<close>
  "stack col column p =
     \<lparr> board = (replicate 7 (replicate 6 None))[nat column := col],
       currentPlayer = p, winner = Null, status = playing, winningCells = None \<rparr>"

subsection \<open>Three positions\<close>

definition tttRowTaken :: ttt_state where
  \<comment> \<open>player 0 owns the top row, before the result is written into the state\<close>
  "tttRowTaken = \<lparr> board = [Some 0, Some 0, Some 0, Some 1, Some 1, None, None, None, None],
                    currentPlayer = 0, winner = Null, status = playing, winningPattern = None \<rparr>"

definition c4ThreeInRow :: c4_state where
  \<comment> \<open>player 0 owns the bottom cells of columns 0 to 2 and is to move\<close>
  "c4ThreeInRow =
     \<lparr> board = [[None, None, None, None, Some 1, Some 0],
                 [None, None, None, None, Some 1, Some 0],
                 [None, None, None, None, Some 1, Some 0],
                 [None, None, None, None, None, None],
                 [None, None, None, None, None, None],
                 [None, None, None, None, None, None],
                 [None, None, None, None, None, None]],
       currentPlayer = 0, winner = Null, status = playing, winningCells = None \<rparr>"

definition tttMidGame :: ttt_state where
  \<comment> \<open>tic-tac-toe after player 0 has taken the centre\<close>
  "tttMidGame = \<lparr> board = [None, None, None, None, Some 0, None, None, None, None],
                   currentPlayer = 1, winner = Null, status = playing, winningPattern = None \<rparr>"

subsection \<open>What a handler may do to the state of a room\<close>

definition engineOnly :: "'s GameInterface \<Rightarrow> 's \<Rightarrow> 's \<Rightarrow> bool" where
  \<comment> \<open>the state after a step is the state before it, an object that \<^verbatim>\<open>makeMove\<close> returns for
      the state before it, or the state that \<^verbatim>\<open>init\<close> returns\<close>
  "engineOnly g old new =
     (new = old \<or> (\<exists>p m. makeMove g old p m = NewObject new) \<or> new = init g)"

definition engineOrStatus ::
  "('b, 'z) GameState_scheme GameInterface \<Rightarrow> ('b, 'z) GameState_scheme
     \<Rightarrow> ('b, 'z) GameState_scheme \<Rightarrow> bool" where
  \<comment> \<open>as before, but for the field \<^verbatim>\<open>status\<close>, which a handler may have overwritten in the
      state before the step or in the state that \<^verbatim>\<open>init\<close> returns\<close>
  "engineOrStatus g old new =
     (new = old \<or> (\<exists>p m. makeMove g old p m = NewObject new)
      \<or> new = (init g) \<lparr> status := playing \<rparr>
      \<or> new = old \<lparr> status := playing \<rparr>
      \<or> new = old \<lparr> status := waiting \<rparr>)"

definition spectatorOnly :: "'s room \<Rightarrow> string \<Rightarrow> bool" where
  \<comment> \<open>the socket is among the spectators of the room and has no seat in it\<close>
  "spectatorOnly room socketId =
     (socketId \<in> set (map sockId (spectators room)) \<and> socketId \<notin> set (map sockId (players room)))"

fun sparesRoom :: "string \<Rightarrow> 's room \<Rightarrow> event \<Rightarrow> bool" where
  \<comment> \<open>the event is not a reset of the room \<open>rid\<close>, does not take a free seat in it and does
      not create a room under its identifier\<close>
  "sparesRoom rid room (ResetGame r) = (r \<noteq> rid)"
| "sparesRoom rid room (JoinRoom r name) =
     (r \<noteq> rid \<or> getMaxPlayers (gameInstance room) \<le> length (players room))"
| "sparesRoom rid room (CreateRoom name gameTypeArg uuid) = (take 6 uuid \<noteq> rid)"
| "sparesRoom rid room (MakeMove r move) = True"
| "sparesRoom rid room Disconnect = True"

subsection \<open>Two rooms\<close>

definition alice :: player where
  "alice = \<lparr> sockId = ''s1'', username = ''Alice'', index = 0, playerInfo = symbol ''X'' \<rparr>"

definition bob :: player where
  "bob = \<lparr> sockId = ''s2'', username = ''Bob'', index = 1, playerInfo = symbol ''O'' \<rparr>"

definition carol :: member where
  "carol = \<lparr> sockId = ''s3'', username = ''Carol'' \<rparr>"

definition fullRoom :: "ttt_state room" where
  \<comment> \<open>both seats taken, a spectator watching, the game under way\<close>
  "fullRoom = \<lparr> roomId = ''ab12cd'', gameType = ''tic-tac-toe'', gameInstance = TicTacToeGame,
                 players = [alice, bob], gameState = tttMidGame, spectators = [carol] \<rparr>"

definition waitingRoom :: "ttt_state room" where
  \<comment> \<open>the room as \<^verbatim>\<open>createRoom\<close> leaves it\<close>
  "waitingRoom = \<lparr> roomId = ''ab12cd'', gameType = ''tic-tac-toe'', gameInstance = TicTacToeGame,
                    players = [alice], gameState = ttt_init, spectators = [] \<rparr>"

subsection \<open>A won game that is played on\<close>

fun runEvents ::
  "(string \<Rightarrow> ('b, 'z) GameState_scheme GameInterface option) \<Rightarrow> ('b, 'z) GameState_scheme rooms
     \<Rightarrow> (string \<times> event) list \<Rightarrow> ('b, 'z) GameState_scheme rooms" where
  \<comment> \<open>the registry after the events \<open>(socketId, event)\<close> have been handled in turn\<close>
  "runEvents gameTypes rooms [] = rooms"
| "runEvents gameTypes rooms ((socketId, ev) # rest) =
     runEvents gameTypes (fst (handle gameTypes rooms socketId ev)) rest"

definition reopenedGame :: "(string \<times> event) list" where
  \<comment> \<open>a room of connect-four is created and joined; the first player wins with the bottom
      cells of columns 0 to 3; the second player leaves and another one takes the seat\<close>
  "reopenedGame =
     [(''s1'', CreateRoom ''Alice'' (Some ''connect4'') ''ab12cd34-0000-4000-8000-000000000000''),
      (''s2'', JoinRoom ''ab12cd'' ''Bob''),
      (''s1'', MakeMove ''ab12cd'' 0), (''s2'', MakeMove ''ab12cd'' 0),
      (''s1'', MakeMove ''ab12cd'' 1), (''s2'', MakeMove ''ab12cd'' 1),
      (''s1'', MakeMove ''ab12cd'' 2), (''s2'', MakeMove ''ab12cd'' 2),
      (''s1'', MakeMove ''ab12cd'' 3),
      (''s2'', Disconnect),
      (''s4'', JoinRoom ''ab12cd'' ''Dave'')]"

definition c4Reopened :: c4_state where
  \<comment> \<open>the state of that room after these events: the game is won and its status is
      \<^verbatim>\<open>playing\<close> again, the winner of the finished game being to move\<close>
  "c4Reopened =
     \<lparr> board = [[None, None, None, None, Some 1, Some 0],
                 [None, None, None, None, Some 1, Some 0],
                 [None, None, None, None, Some 1, Some 0],
                 [None, None, None, None, None, Some 0],
                 [None, None, None, None, None, None],
                 [None, None, None, None, None, None],
                 [None, None, None, None, None, None]],
       currentPlayer = 0, winner = Num 0, status = playing,
       winningCells = Some [(3, 5), (2, 5), (1, 5), (0, 5)] \<rparr>"


section \<open>Object identity\<close>

text \<open>
  The reference returned differs from the reference given, an address of the store, if
  and only if a new object is returned; the objects that were in the store are not
  touched, and the object at the reference returned is the state after the call.
\<close>

lemma returnedRef_differs:
  "ref < length store \<Longrightarrow> (snd (returnedRef store ref r) \<noteq> ref) = (r \<noteq> SameObject)"
  by (cases r) auto

lemma returnedRef_keeps:
  "a < length store \<Longrightarrow> fst (returnedRef store ref r) ! a = store ! a"
  by (cases r) (auto simp: nth_append)

lemma returnedRef_contents:
  "ref < length store \<Longrightarrow>
     fst (returnedRef store ref r) ! snd (returnedRef store ref r) = stateAfter (store ! ref) r"
  by (cases r) auto


section \<open>Properties of TicTacToeGame\<close>

lemma ofCell_Num: "ofCell c = Num p \<longleftrightarrow> c = Some p"
  by (cases c) auto

lemma Num_ofCell: "Num p = ofCell c \<longleftrightarrow> c = Some p"
  by (cases c) auto

lemma ofCell_Null: "ofCell c = Null \<longleftrightarrow> c = None"
  by (cases c) auto

lemma ofCell_inj: "ofCell c = ofCell d \<longleftrightarrow> c = d"
  by (cases c; cases d) auto

lemma at_in: "0 \<le> i \<Longrightarrow> i < int (length b) \<Longrightarrow> at b i = ofCell (b ! nat i)"
  by (simp add: at_def)

lemma at_out: "i < 0 \<or> int (length b) \<le> i \<Longrightarrow> at b i = Undefined"
  by (auto simp: at_def)

lemma lineOwned_iff:
  assumes "indexTriple (length b) [a, b', c]"
  shows "lineOwned b a b' c \<longleftrightarrow> (\<exists>p. ownedBy b [a, b', c] p)"
  using assms
  by (cases "b ! nat a") (auto simp: lineOwned_def indexTriple_def ownedBy_def at_in ofCell_Null ofCell_inj ofCell_Num Num_ofCell)

lemma lineOwned_winner:
  assumes "indexTriple (length b) [a, b', c]" "ownedBy b [a, b', c] p"
  shows "at b a = Num p"
  using assms by (simp add: indexTriple_def ownedBy_def at_in)

lemma ttt_scan_None:
  assumes "\<forall>t \<in> set ps. indexTriple (length b) t"
  shows "ttt_scan b ps = None \<longleftrightarrow> (\<forall>t \<in> set ps. \<forall>p. \<not> ownedBy b t p)"
  using assms
proof (induction ps)
  case Nil
  then show ?case by simp
next
  case (Cons t ps)
  then obtain a b' c where t: "t = [a, b', c]"
    by (auto simp: indexTriple_def length_Suc_conv numeral_3_eq_3)
  with Cons show ?case
    using lineOwned_iff[of b a b' c] by auto
qed

lemma ttt_scan_Some:
  assumes "\<forall>t \<in> set ps. indexTriple (length b) t" "ttt_scan b ps = Some r"
  shows "\<exists>pre t post p. ps = pre @ t # post \<and> r = Over won (Num p) (Some t) \<and> ownedBy b t p
           \<and> (\<forall>u \<in> set pre. \<forall>q. \<not> ownedBy b u q)"
  using assms
proof (induction ps)
  case Nil
  then show ?case by simp
next
  case (Cons t ps)
  then obtain a b' c where t: "t = [a, b', c]"
    by (auto simp: indexTriple_def length_Suc_conv numeral_3_eq_3)
  have it: "indexTriple (length b) [a, b', c]" using Cons.prems t by simp
  show ?case
  proof (cases "lineOwned b a b' c")
    case True
    then obtain p where p: "ownedBy b [a, b', c] p" using lineOwned_iff[OF it] by blast
    have "r = Over won (Num p) (Some t)"
      using Cons.prems(2) True t lineOwned_winner[OF it p] by simp
    then have "t # ps = [] @ t # ps \<and> r = Over won (Num p) (Some t) \<and> ownedBy b t p
           \<and> (\<forall>u \<in> set []. \<forall>q. \<not> ownedBy b u q)" using p t by simp
    then show ?thesis by blast
  next
    case False
    then have "ttt_scan b ps = Some r" using Cons.prems(2) t by simp
    with Cons obtain pre u post p where
      h: "ps = pre @ u # post" "r = Over won (Num p) (Some u)" "ownedBy b u p"
         "\<forall>v \<in> set pre. \<forall>q. \<not> ownedBy b v q"
      by auto
    have "\<forall>q. \<not> ownedBy b t q" using False lineOwned_iff[OF it] t by blast
    then have "t # ps = (t # pre) @ u # post \<and> r = Over won (Num p) (Some u) \<and> ownedBy b u p
           \<and> (\<forall>v \<in> set (t # pre). \<forall>q. \<not> ownedBy b v q)" using h by simp
    then show ?thesis by blast
  qed
qed

lemma winPatterns_index: "\<forall>t \<in> set winPatterns. indexTriple 9 t"
  by (simp add: winPatterns_def indexTriple_def)

lemmas ttt_eval =
  ttt_makeMove_def ttt_isValidMove_def ttt_newGameState_def ttt_checkGameOver_def
  winPatterns_def lineOwned_def at_def ttt_getNextPlayer_def ttt_init_def Let_def

text \<open>
  Claim C2. On a board of nine cells, \<^verbatim>\<open>checkGameOver\<close> reports the status \<^verbatim>\<open>won\<close> if and
  only if one of the eight triples of \<^verbatim>\<open>winPatterns\<close> has its three cells non-empty and
  owned by one player. When it does, the winner reported is that player and the highlight
  is that triple: the first triple, in the order of \<^verbatim>\<open>winPatterns\<close>, that one player owns.
\<close>

theorem ttt_win_exact:
  assumes "length (board gs) = 9"
  shows "(reportsWin (ttt_checkGameOver gs) \<longleftrightarrow>
            (\<exists>t \<in> set winPatterns. \<exists>p. ownedBy (board gs) t p))
       \<and> (reportsWin (ttt_checkGameOver gs) \<longrightarrow>
            (\<exists>pre t post p. winPatterns = pre @ t # post
               \<and> ttt_checkGameOver gs = Over won (Num p) (Some t)
               \<and> ownedBy (board gs) t p
               \<and> (\<forall>u \<in> set pre. \<forall>q. \<not> ownedBy (board gs) u q)))"
proof (cases "ttt_scan (board gs) winPatterns")
  case None
  have ix: "\<forall>t \<in> set winPatterns. indexTriple (length (board gs)) t"
    using winPatterns_index assms by simp
  have "\<not> reportsWin (ttt_checkGameOver gs)"
    using None by (simp add: ttt_checkGameOver_def)
  moreover have "\<forall>t \<in> set winPatterns. \<forall>p. \<not> ownedBy (board gs) t p"
    using ttt_scan_None[OF ix] None by simp
  ultimately show ?thesis by blast
next
  case (Some r)
  have ix: "\<forall>t \<in> set winPatterns. indexTriple (length (board gs)) t"
    using winPatterns_index assms by simp
  from ttt_scan_Some[OF ix Some] obtain pre t post p where
    h: "winPatterns = pre @ t # post" "r = Over won (Num p) (Some t)" "ownedBy (board gs) t p"
       "\<forall>u \<in> set pre. \<forall>q. \<not> ownedBy (board gs) u q"
    by blast
  have r: "ttt_checkGameOver gs = Over won (Num p) (Some t)"
    using Some h(2) by (simp add: ttt_checkGameOver_def)
  have "t \<in> set winPatterns" by (subst h(1)) simp
  then show ?thesis using h r by auto
qed

theorem ttt_win_exact_witness:
  "length (board tttRowTaken) = 9
   \<and> reportsWin (ttt_checkGameOver tttRowTaken)
   \<and> (\<exists>t \<in> set winPatterns. \<exists>p. ownedBy (board tttRowTaken) t p)
   \<and> ttt_checkGameOver tttRowTaken = Over won (Num 0) (Some [0, 1, 2])"
proof -
  have len: "length (board tttRowTaken) = 9"
    by (simp add: tttRowTaken_def)
  have r: "ttt_checkGameOver tttRowTaken = Over won (Num 0) (Some [0, 1, 2])"
    by (simp add: tttRowTaken_def ttt_eval)
  have w: "reportsWin (ttt_checkGameOver tttRowTaken)"
    by (simp add: r)
  have "\<exists>t \<in> set winPatterns. \<exists>p. ownedBy (board tttRowTaken) t p"
    using conjunct1[OF ttt_win_exact[OF len]] w by (rule iffD1)
  then show ?thesis using len r w by (intro conjI)
qed

text \<open>
  Claim C10. On a board of nine cells, a move whose index is below 0 or above 8 reads
  \<^verbatim>\<open>undefined\<close> from the board, which is not \<^verbatim>\<open>null\<close>: \<^verbatim>\<open>isValidMove\<close> returns false although
  it has no test of the bounds, and \<^verbatim>\<open>makeMove\<close> returns the object it was given.
\<close>

theorem ttt_out_of_range:
  assumes "length (board gs) = 9" "move < 0 \<or> 8 < move"
  shows "at (board gs) move = Undefined \<and> \<not> ttt_isValidMove gs p move
         \<and> ttt_makeMove gs p move = SameObject"
proof -
  have u: "at (board gs) move = Undefined"
    using assms by (intro at_out) auto
  then have "\<not> ttt_isValidMove gs p move"
    by (simp add: ttt_isValidMove_def)
  then show ?thesis using u by (simp add: ttt_makeMove_def)
qed

theorem ttt_out_of_range_witness:
  "length (board (ttt_init \<lparr> status := playing \<rparr>)) = 9 \<and> ((9::int) < 0 \<or> 8 < (9::int))
   \<and> at (board (ttt_init \<lparr> status := playing \<rparr>)) 9 = Undefined
   \<and> \<not> ttt_isValidMove (ttt_init \<lparr> status := playing \<rparr>) 0 9
   \<and> ttt_makeMove (ttt_init \<lparr> status := playing \<rparr>) 0 9 = SameObject"
proof -
  have len: "length (board (ttt_init \<lparr> status := playing \<rparr>)) = 9"
    by (simp add: ttt_init_def)
  have out: "(9::int) < 0 \<or> 8 < (9::int)" by simp
  show ?thesis using ttt_out_of_range[OF len out, of 0] len out by (intro conjI) simp_all
qed


section \<open>Properties of Connect4Game\<close>

lemma cellAt_owned:
  assumes "wfBoard b"
  shows "(0 \<le> x \<and> x < 7 \<and> 0 \<le> y \<and> y < 6 \<and> cellAt b x y = Num p) \<longleftrightarrow> ownedCell b p x y"
proof (cases "0 \<le> x \<and> x < 7 \<and> 0 \<le> y \<and> y < 6")
  case True
  then have "nat x < length b" using assms by (auto simp: wfBoard_def)
  then have "length (b ! nat x) = 6" using assms by (simp add: wfBoard_def list_all_length)
  then show ?thesis using True assms
    by (simp add: cellAt_def at_def ownedCell_def wfBoard_def ofCell_Num)
next
  case False
  then show ?thesis by (auto simp: ownedCell_def)
qed

lemma scanLine_unrolled:
  assumes "wfBoard b"
  shows "scanLine b p x y sx sy 0 =
     (if ownedCell b p x y then
        (x, y) # (if ownedCell b p (x + sx) (y + sy) then
           (x + sx, y + sy) # (if ownedCell b p (x + sx + sx) (y + sy + sy) then
              [(x + sx + sx, y + sy + sy)] else [])
           else [])
      else [])"
proof -
  have s3: "scanLine b p x' y' sx sy (Suc (Suc (Suc 0))) = []" for x' y'
    by (subst scanLine.simps) simp
  have s2: "scanLine b p x' y' sx sy (Suc (Suc 0)) =
     (if ownedCell b p x' y' then [(x', y')] else [])" for x' y'
    by (subst scanLine.simps) (use cellAt_owned[OF assms, of x' y' p] in \<open>auto simp: s3\<close>)
  have s1: "scanLine b p x' y' sx sy (Suc 0) =
     (if ownedCell b p x' y' then (x', y') # scanLine b p (x' + sx) (y' + sy) sx sy (Suc (Suc 0))
      else [])" for x' y'
    by (subst scanLine.simps) (use cellAt_owned[OF assms, of x' y' p] in \<open>auto\<close>)
  have s0: "scanLine b p x y sx sy 0 =
     (if ownedCell b p x y then (x, y) # scanLine b p (x + sx) (y + sy) sx sy 1 else [])"
    by (subst scanLine.simps) (use cellAt_owned[OF assms, of x y p] in \<open>auto\<close>)
  show ?thesis by (simp add: s0 s1 s2)
qed

lemma scanLine_length: "length (scanLine b p x y sx sy count) \<le> 3 - count"
proof (induction b p x y sx sy count rule: scanLine.induct)
  case (1 b p x y sx sy count)
  show ?case
  proof (cases "0 \<le> x \<and> x < 7 \<and> 0 \<le> y \<and> y < 6 \<and> cellAt b x y = Num p \<and> count < 3")
    case True
    then have "length (scanLine b p (x + sx) (y + sy) sx sy (count + 1)) \<le> 3 - (count + 1)"
      using 1 by simp
    then show ?thesis using True by (subst scanLine.simps) auto
  next
    case False
    then show ?thesis by (subst scanLine.simps) auto
  qed
qed

lemma lineCells_four:
  assumes "wfBoard b" "ownedCell b p x y"
  shows "4 \<le> length (lineCells b p x y dx dy) \<longleftrightarrow> fourOnLine b p x y dx dy"
  using assms(2)
  by (simp add: lineCells_def fourOnLine_def scanLine_unrolled[OF assms(1)] algebra_simps)

lemma c4_lines_None:
  assumes "wfBoard b" "ownedCell b p x y"
  shows "c4_lines b p x y ds = None \<longleftrightarrow> \<not> list_ex (\<lambda>(dx, dy). fourOnLine b p x y dx dy) ds"
  by (induction ds) (auto simp: lineCells_four[OF assms] Let_def split: if_splits)

lemma c4_lines_Some:
  "c4_lines b p x y ds = Some r \<Longrightarrow>
     \<exists>dx dy. (dx, dy) \<in> set ds \<and> r = Over won (Num p) (Some (lineCells b p x y dx dy))"
proof (induction ds)
  case Nil
  then show ?case by simp
next
  case (Cons d ds)
  obtain dx dy where d: "d = (dx, dy)" by (cases d)
  show ?case
  proof (cases "4 \<le> length (lineCells b p x y dx dy)")
    case True
    then have "r = Over won (Num p) (Some (lineCells b p x y dx dy))"
      using Cons.prems d by simp
    then show ?thesis using d by auto
  next
    case False
    then have "c4_lines b p x y ds = Some r" using Cons.prems d by simp
    then show ?thesis using Cons.IH by auto
  qed
qed

lemma lineCells_length: "length (lineCells b p x y dx dy) \<le> 7"
  using scanLine_length[of b p "x + dx * 1" "y + dy * 1" "dx * 1" "dy * 1" 0]
        scanLine_length[of b p "x + dx * (- 1)" "y + dy * (- 1)" "dx * (- 1)" "dy * (- 1)" 0]
  by (simp add: lineCells_def)

lemma c4_checkGameOver_win:
  assumes "wfBoard (board gs)" "ownedCell (board gs) p x y"
  shows "reportsWin (c4_checkGameOver gs x y p) \<longleftrightarrow> fourThrough (board gs) p x y"
proof (cases "c4_lines (board gs) p x y directions")
  case None
  then show ?thesis
    using c4_lines_None[OF assms, of directions]
    by (simp add: c4_checkGameOver_def fourThrough_def)
next
  case (Some r)
  then have "fourThrough (board gs) p x y"
    using c4_lines_None[OF assms, of directions] by (simp add: fourThrough_def)
  moreover have "reportsWin r" using c4_lines_Some[OF Some] by auto
  ultimately show ?thesis using Some by (simp add: c4_checkGameOver_def)
qed

lemma c4_checkGameOver_winner:
  assumes "c4_checkGameOver gs x y p = Over won w h"
  shows "w = Num p \<and> (\<exists>dx dy. (dx, dy) \<in> set directions \<and> h = Some (lineCells (board gs) p x y dx dy))"
proof (cases "c4_lines (board gs) p x y directions")
  case None
  then show ?thesis using assms by (simp add: c4_checkGameOver_def split: if_splits)
next
  case (Some r)
  then show ?thesis using assms c4_lines_Some[OF Some] by (auto simp: c4_checkGameOver_def)
qed

lemma dropLoop_spec:
  assumes "wfBoard b" "0 \<le> column" "column < 7"
  shows "n \<le> 6 \<Longrightarrow>
     (if \<exists>r<n. b ! nat column ! r = None
      then \<exists>r<n. dropLoop b column p n = (b[nat column := (b ! nat column)[r := Some p]], int r)
             \<and> b ! nat column ! r = None \<and> (\<forall>r'. r < r' \<and> r' < n \<longrightarrow> b ! nat column ! r' \<noteq> None)
      else dropLoop b column p n = (b, 0))"
proof (induction n)
  case 0
  then show ?case by simp
next
  case (Suc n)
  have len: "length (b ! nat column) = 6"
    using assms by (auto simp: wfBoard_def list_all_length)
  have c: "cellAt b column (int n) = ofCell (b ! nat column ! n)"
    using assms Suc.prems len by (auto simp: cellAt_def at_def wfBoard_def)
  show ?case
  proof (cases "b ! nat column ! n")
    case None
    then have "dropLoop b column p (Suc n) = (b[nat column := (b ! nat column)[n := Some p]], int n)"
      using c by simp
    then show ?thesis using None by auto
  next
    case (Some q)
    then have d: "dropLoop b column p (Suc n) = dropLoop b column p n"
      using c by simp
    have ih: "if \<exists>r<n. b ! nat column ! r = None
      then \<exists>r<n. dropLoop b column p n = (b[nat column := (b ! nat column)[r := Some p]], int r)
             \<and> b ! nat column ! r = None \<and> (\<forall>r'. r < r' \<and> r' < n \<longrightarrow> b ! nat column ! r' \<noteq> None)
      else dropLoop b column p n = (b, 0)"
      using Suc by simp
    have ex: "(\<exists>r<Suc n. b ! nat column ! r = None) \<longleftrightarrow> (\<exists>r<n. b ! nat column ! r = None)"
      using Some less_Suc_eq by auto
    show ?thesis
    proof (cases "\<exists>r<n. b ! nat column ! r = None")
      case True
      then obtain r where r: "r < n"
        "dropLoop b column p n = (b[nat column := (b ! nat column)[r := Some p]], int r)"
        "b ! nat column ! r = None" "\<forall>r'. r < r' \<and> r' < n \<longrightarrow> b ! nat column ! r' \<noteq> None"
        using ih by auto
      have "\<forall>r'. r < r' \<and> r' < Suc n \<longrightarrow> b ! nat column ! r' \<noteq> None"
        using r(4) Some less_Suc_eq by auto
      then have "r < Suc n \<and> dropLoop b column p (Suc n) = (b[nat column := (b ! nat column)[r := Some p]], int r)
             \<and> b ! nat column ! r = None \<and> (\<forall>r'. r < r' \<and> r' < Suc n \<longrightarrow> b ! nat column ! r' \<noteq> None)"
        using r d by simp
      then show ?thesis using ex True by (simp only: if_True) blast
    next
      case False
      then show ?thesis using ih d ex by (simp only: if_False)
    qed
  qed
qed

lemma valid_top_empty:
  assumes "wfBoard (board gs)" "c4_isValidMove gs p column"
  shows "0 \<le> column \<and> column < 7 \<and> board gs ! nat column ! 0 = None
         \<and> currentPlayer gs = p \<and> status gs = playing"
proof -
  have r: "0 \<le> column" "column < 7" "cellAt (board gs) column 0 = Null"
    "currentPlayer gs = p" "status gs = playing"
    using assms(2) by (auto simp: c4_isValidMove_def split: if_splits)
  have len: "length (board gs ! nat column) = 6"
    using assms(1) r by (auto simp: wfBoard_def list_all_length)
  have "cellAt (board gs) column 0 = ofCell (board gs ! nat column ! 0)"
    using assms(1) r len by (auto simp: cellAt_def at_def wfBoard_def)
  then have "board gs ! nat column ! 0 = None" using r(3) by (cases "board gs ! nat column ! 0") auto
  then show ?thesis using r by simp
qed

lemma dropLoop_valid:
  assumes "wfBoard (board gs)" "c4_isValidMove gs p column"
  shows "\<exists>r<6. dropLoop (board gs) column p 6
            = ((board gs)[nat column := (board gs ! nat column)[r := Some p]], int r)
         \<and> board gs ! nat column ! r = None
         \<and> (\<forall>r'. r < r' \<and> r' < 6 \<longrightarrow> board gs ! nat column ! r' \<noteq> None)"
proof -
  have v: "0 \<le> column" "column < 7" "board gs ! nat column ! 0 = None"
    using valid_top_empty[OF assms] by auto
  then have "\<exists>r<6. board gs ! nat column ! r = None" by (intro exI[of _ 0]) simp
  then show ?thesis
    using dropLoop_spec[OF assms(1) v(1) v(2), of 6 p] by simp
qed

lemma wfBoard_update:
  assumes "wfBoard b"
  shows "wfBoard (b[c := (b ! c)[r := v]])"
  using assms by (cases "c < length b") (auto simp: wfBoard_def list_all_length nth_list_update)

lemma ownedCell_update:
  assumes "wfBoard b" "0 \<le> column" "column < 7" "r < 6"
  shows "ownedCell (b[nat column := (b ! nat column)[r := Some p]]) p column (int r)"
proof -
  have "nat column < length b" using assms by (auto simp: wfBoard_def)
  moreover have "length (b ! nat column) = 6"
    using assms by (auto simp: wfBoard_def list_all_length)
  ultimately show ?thesis using assms by (simp add: ownedCell_def)
qed

lemma c4_won_iff:
  assumes "c4_isValidMove gs p column" "dropLoop (board gs) column p 6 = (b, row)"
  shows "status (c4_newGameState gs p column) = won
           \<longleftrightarrow> reportsWin (c4_checkGameOver (gs \<lparr> board := b \<rparr>) column row p)"
    and "winner (c4_newGameState gs p column)
           = (case c4_checkGameOver (gs \<lparr> board := b \<rparr>) column row p of
                Over st w h \<Rightarrow> w | NotOver \<Rightarrow> winner gs)"
proof -
  have "status gs = playing" using assms(1) by (auto simp: c4_isValidMove_def split: if_splits)
  then show "status (c4_newGameState gs p column) = won
           \<longleftrightarrow> reportsWin (c4_checkGameOver (gs \<lparr> board := b \<rparr>) column row p)"
    using assms(2) by (simp add: c4_newGameState_def Let_def split: gameOverResult.splits)
  show "winner (c4_newGameState gs p column)
           = (case c4_checkGameOver (gs \<lparr> board := b \<rparr>) column row p of
                Over st w h \<Rightarrow> w | NotOver \<Rightarrow> winner gs)"
    using assms(2) by (simp add: c4_newGameState_def Let_def split: gameOverResult.splits)
qed

lemmas c4_eval =
  c4_makeMove_def c4_isValidMove_def c4_newGameState_def c4_checkGameOver_def cellAt_def at_def
  numeral_eq_Suc directions_def lineCells_def scanLine.simps c4_getNextPlayer_def c4_init_def
  Let_def

subsection \<open>A column that is a string\<close>

text \<open>
  When \<^verbatim>\<open>lastColumn\<close> is one of the strings \<^verbatim>\<open>'1'\<close> to \<^verbatim>\<open>'6'\<close>, the first \<open>x\<close> of every scan
  is a string such as \<^verbatim>\<open>'31'\<close>, \<^verbatim>\<open>'30'\<close> or \<^verbatim>\<open>'3-1'\<close>, which is not below 7: no cell is
  scanned, and \<^verbatim>\<open>checkGameOver\<close> reports a draw or nothing, whatever the board holds. For
  \<^verbatim>\<open>'0'\<close> the first \<open>x\<close> is \<^verbatim>\<open>'01'\<close>, which is below 7 and names no column: the read throws.
\<close>

lemma textOf_steps: "textOf 1 = ''1''" "textOf 0 = ''0''" "textOf (- 1) = ''-1''"
  by (simp_all add: textOf_def digitsOf.simps)

lemma string_column_no_scan:
  assumes "lastColumn \<in> {''1'', ''2'', ''3'', ''4'', ''5'', ''6''}"
  shows "scanLineString b p (lastColumn @ ''1'') y sx sy 0 = Returns []"
    and "scanLineString b p (lastColumn @ ''0'') y sx sy 0 = Returns []"
    and "scanLineString b p (lastColumn @ ''-1'') y sx sy 0 = Returns []"
  using assms
  by (auto simp: scanLineString.simps toNumber_def atLeast0_def below7_def isDigit_def decimal_def)

lemma string_column_never_wins:
  assumes "lastColumn \<in> {''1'', ''2'', ''3'', ''4'', ''5'', ''6''}"
  shows "c4_checkGameOverString gs lastColumn lastRow p =
           Returns (if list_all (\<lambda>column. at column 0 \<noteq> Null) (board gs) then Over draw Null None
                    else NotOver)"
  by (simp add: c4_checkGameOverString_def directions_def lineCellsString_def textOf_steps
        string_column_no_scan[OF assms])

lemma string_zero_throws:
  assumes "wfBoard (board gs)" "0 \<le> lastRow" "lastRow < 6"
  shows "c4_checkGameOverString gs ''0'' lastRow p = TypeError"
proof -
  have "[0..<length (board gs)] = [0, 1, 2, 3, 4, 5, 6]"
    using assms(1) by (simp add: wfBoard_def upt_rec numeral_eq_Suc)
  then have "columnNamed (board gs) ''01'' = None"
    by (simp add: columnNamed_def textOf_def digitsOf.simps)
  then have "scanLineString (board gs) p ''01'' lastRow 1 0 0 = TypeError"
    using assms(2,3)
    by (simp add: scanLineString.simps toNumber_def atLeast0_def below7_def isDigit_def decimal_def)
  then show ?thesis
    by (simp add: c4_checkGameOverString_def directions_def lineCellsString_def textOf_steps)
qed

text \<open>
  So the piece of a move with the column \<^verbatim>\<open>'3'\<close> can complete four in a row, which
  \<^verbatim>\<open>checkGameOver\<close> reports for the number 3, and it is not reported.
\<close>

lemma string_column_misses_four:
  "c4_isValidMove c4ThreeInRow 0 3
   \<and> dropLoop (board c4ThreeInRow) 3 0 6
       = ((board c4ThreeInRow)[3 := [None, None, None, None, None, Some 0]], 5)
   \<and> fourThrough ((board c4ThreeInRow)[3 := [None, None, None, None, None, Some 0]]) 0 3 5
   \<and> reportsWin
       (c4_checkGameOver
          (c4ThreeInRow \<lparr> board := (board c4ThreeInRow)[3 := [None, None, None, None, None, Some 0]] \<rparr>)
          3 5 0)
   \<and> c4_checkGameOverString
       (c4ThreeInRow \<lparr> board := (board c4ThreeInRow)[3 := [None, None, None, None, None, Some 0]] \<rparr>)
       ''3'' 5 0 = Returns NotOver"
proof -
  have ok: "c4_isValidMove c4ThreeInRow 0 3"
    by (simp add: c4ThreeInRow_def c4_isValidMove_def cellAt_def at_def)
  have dr: "dropLoop (board c4ThreeInRow) 3 0 6
              = ((board c4ThreeInRow)[3 := [None, None, None, None, None, Some 0]], 5)"
    by (simp add: c4ThreeInRow_def cellAt_def at_def numeral_eq_Suc)
  have four: "fourThrough ((board c4ThreeInRow)[3 := [None, None, None, None, None, Some 0]]) 0 3 5"
    by (simp add: c4ThreeInRow_def fourThrough_def fourOnLine_def ownedCell_def directions_def)
  have num: "reportsWin
       (c4_checkGameOver
          (c4ThreeInRow \<lparr> board := (board c4ThreeInRow)[3 := [None, None, None, None, None, Some 0]] \<rparr>)
          3 5 0)"
    by (simp add: c4ThreeInRow_def c4_eval)
  have str: "c4_checkGameOverString
       (c4ThreeInRow \<lparr> board := (board c4ThreeInRow)[3 := [None, None, None, None, None, Some 0]] \<rparr>)
       ''3'' 5 0 = Returns NotOver"
    by (simp add: string_column_never_wins c4ThreeInRow_def at_def)
  show ?thesis by (intro conjI ok dr four num str)
qed

subsection \<open>The win that checkGameOver reports\<close>

text \<open>
  The handlers reach a state with the status \<^verbatim>\<open>playing\<close> whose board holds four in a row:
  after a win, the \<^verbatim>\<open>disconnect\<close> of a player and the \<^verbatim>\<open>joinRoom\<close> that fills the seat again
  overwrite the status and leave the board as it is.
\<close>

lemmas handler_eval =
  onCreateRoom_def onJoinRoom_def onMakeMove_def onDisconnect_def forInKeys_def arrayIndex_def
  isDigit_def lookupRoom_def splice1_def c4GameTypes_def Connect4Game_def c4_getMaxPlayers_def
  c4_getPlayerSetup_def

lemma reopened_reached:
  "map_option gameState (lookupRoom (runEvents c4GameTypes [] reopenedGame) ''ab12cd'')
     = Some c4Reopened"
  by (simp add: reopenedGame_def c4Reopened_def handler_eval c4_eval)

text \<open>
  Claim C1 does not hold as stated. In the state that the handlers reach above, the
  player to move owns the bottom cells of columns 0 to 3. A valid move of that player on
  column 5 puts a piece on the bottom row: the horizontal line through the piece contains
  four contiguous cells of the mover, none of them next to the piece. The scan starts at
  the piece and stops at the first cell that is not the mover's, so \<^verbatim>\<open>checkGameOver\<close>
  reports no win and the state that \<^verbatim>\<open>makeMove\<close> returns has the status \<^verbatim>\<open>playing\<close>.
\<close>

theorem earlier_four_counterexample:
  "map_option gameState (lookupRoom (runEvents c4GameTypes [] reopenedGame) ''ab12cd'')
     = Some c4Reopened
   \<and> wfBoard (board c4Reopened)
   \<and> c4_isValidMove c4Reopened 0 5
   \<and> dropLoop (board c4Reopened) 5 0 6
       = ((board c4Reopened)[5 := [None, None, None, None, None, Some 0]], 5)
   \<and> fourAlong ((board c4Reopened)[5 := [None, None, None, None, None, Some 0]]) 0 5 5 1 0
   \<and> lineHasFour ((board c4Reopened)[5 := [None, None, None, None, None, Some 0]]) 0 5 5
   \<and> \<not> reportsWin
         (c4_checkGameOver
            (c4Reopened \<lparr> board := (board c4Reopened)[5 := [None, None, None, None, None, Some 0]] \<rparr>)
            5 5 0)
   \<and> c4_makeMove c4Reopened 0 5 \<noteq> SameObject
   \<and> board (stateAfter c4Reopened (c4_makeMove c4Reopened 0 5))
       = (board c4Reopened)[5 := [None, None, None, None, None, Some 0]]
   \<and> status (stateAfter c4Reopened (c4_makeMove c4Reopened 0 5)) = playing"
proof -
  have wf: "wfBoard (board c4Reopened)"
    by (simp add: c4Reopened_def wfBoard_def)
  have ok: "c4_isValidMove c4Reopened 0 5"
    by (simp add: c4Reopened_def c4_isValidMove_def cellAt_def at_def)
  have dr: "dropLoop (board c4Reopened) 5 0 6
              = ((board c4Reopened)[5 := [None, None, None, None, None, Some 0]], 5)"
    by (simp add: c4Reopened_def cellAt_def at_def numeral_eq_Suc)
  have al: "fourAlong ((board c4Reopened)[5 := [None, None, None, None, None, Some 0]]) 0 5 5 1 0"
    by (simp add: c4Reopened_def fourAlong_def fourAt_def ownedCell_def upto.simps)
  then have lf: "lineHasFour ((board c4Reopened)[5 := [None, None, None, None, None, Some 0]]) 0 5 5"
    by (simp add: lineHasFour_def directions_def)
  have nw: "\<not> reportsWin
         (c4_checkGameOver
            (c4Reopened \<lparr> board := (board c4Reopened)[5 := [None, None, None, None, None, Some 0]] \<rparr>)
            5 5 0)"
    by (simp add: c4Reopened_def c4_eval)
  have mk: "c4_makeMove c4Reopened 0 5 \<noteq> SameObject"
    using ok by (simp add: c4_makeMove_def)
  have bd: "board (stateAfter c4Reopened (c4_makeMove c4Reopened 0 5))
       = (board c4Reopened)[5 := [None, None, None, None, None, Some 0]]"
    by (simp add: c4Reopened_def c4_eval)
  have st: "status (stateAfter c4Reopened (c4_makeMove c4Reopened 0 5)) = playing"
    by (simp add: c4Reopened_def c4_eval)
  show ?thesis by (intro conjI reopened_reached wf ok dr al lf nw mk bd st)
qed

text \<open>
  Claim C1, amended. Let a valid move whose column is a number be applied to a state
  whose board has seven columns of six cells, and let \<open>b\<close> and \<open>row\<close> be the board and the
  row that the loop of \<^verbatim>\<open>makeMove\<close> hands to \<^verbatim>\<open>checkGameOver\<close>. \<^verbatim>\<open>makeMove\<close> returns a new
  object with the board \<open>b\<close>, in which the cell \<open>(column, row)\<close> belongs to the mover.
  \<^verbatim>\<open>checkGameOver\<close> reports a win if and only if, on one of the four lines through that
  cell, four contiguous cells that include it belong to the mover; the state returned has
  the status \<^verbatim>\<open>won\<close> in exactly that case. The winner reported, and the winner of the
  state returned when it is won, is the mover. The scan of one direction collects at most
  three cells.
\<close>

theorem c4_win_exact:
  assumes "wfBoard (board gs)" "c4_isValidMove gs p column"
    and "dropLoop (board gs) column p 6 = (b, row)"
  shows "(\<exists>newGameState. c4_makeMove gs p column = NewObject newGameState
            \<and> board newGameState = b
            \<and> (status newGameState = won \<longleftrightarrow> fourThrough b p column row)
            \<and> (status newGameState = won \<longrightarrow> winner newGameState = Num p))
       \<and> ownedCell b p column row
       \<and> (reportsWin (c4_checkGameOver (gs \<lparr> board := b \<rparr>) column row p)
            \<longleftrightarrow> fourThrough b p column row)
       \<and> (\<forall>w h. c4_checkGameOver (gs \<lparr> board := b \<rparr>) column row p = Over won w h \<longrightarrow> w = Num p)
       \<and> (\<forall>x y sx sy. length (scanLine b p x y sx sy 0) \<le> 3)"
proof -
  obtain r where r: "r < 6"
    "dropLoop (board gs) column p 6
       = ((board gs)[nat column := (board gs ! nat column)[r := Some p]], int r)"
    using dropLoop_valid[OF assms(1,2)] by blast
  have v: "0 \<le> column" "column < 7" using valid_top_empty[OF assms(1,2)] by auto
  have b: "b = (board gs)[nat column := (board gs ! nat column)[r := Some p]]" and row: "row = int r"
    using r(2) assms(3) by auto
  have wf: "wfBoard b" unfolding b by (rule wfBoard_update[OF assms(1)])
  have own: "ownedCell b p column row"
    unfolding b row by (rule ownedCell_update[OF assms(1) v r(1)])
  have win: "reportsWin (c4_checkGameOver (gs \<lparr> board := b \<rparr>) column row p)
            \<longleftrightarrow> fourThrough b p column row"
    using c4_checkGameOver_win[of "gs \<lparr> board := b \<rparr>" p column row] wf own by simp
  have wnr: "\<forall>w h. c4_checkGameOver (gs \<lparr> board := b \<rparr>) column row p = Over won w h \<longrightarrow> w = Num p"
    using c4_checkGameOver_winner by blast
  have mk: "c4_makeMove gs p column = NewObject (c4_newGameState gs p column)"
    using assms(2) by (simp add: c4_makeMove_def)
  have nb: "board (c4_newGameState gs p column) = b"
    using assms(3) by (simp add: c4_newGameState_def Let_def split: gameOverResult.splits)
  have st: "status (c4_newGameState gs p column) = won \<longleftrightarrow> fourThrough b p column row"
    using c4_won_iff(1)[OF assms(2,3)] win by simp
  have w2: "status (c4_newGameState gs p column) = won
            \<longrightarrow> winner (c4_newGameState gs p column) = Num p"
  proof
    assume "status (c4_newGameState gs p column) = won"
    then have "reportsWin (c4_checkGameOver (gs \<lparr> board := b \<rparr>) column row p)"
      using c4_won_iff(1)[OF assms(2,3)] by simp
    then obtain w h where o: "c4_checkGameOver (gs \<lparr> board := b \<rparr>) column row p = Over won w h"
      by (cases "c4_checkGameOver (gs \<lparr> board := b \<rparr>) column row p") auto
    then have "w = Num p" using wnr by blast
    then show "winner (c4_newGameState gs p column) = Num p"
      using c4_won_iff(2)[OF assms(2,3)] o by simp
  qed
  have ex: "\<exists>newGameState. c4_makeMove gs p column = NewObject newGameState
            \<and> board newGameState = b
            \<and> (status newGameState = won \<longleftrightarrow> fourThrough b p column row)
            \<and> (status newGameState = won \<longrightarrow> winner newGameState = Num p)"
    using mk nb st w2 by (intro exI[of _ "c4_newGameState gs p column"]) simp
  have sc: "\<forall>x y sx sy. length (scanLine b p x y sx sy 0) \<le> 3"
    using scanLine_length[of b p _ _ _ _ 0] by simp
  show ?thesis by (intro conjI ex own win wnr sc)
qed

theorem c4_win_exact_witness:
  "wfBoard (board c4ThreeInRow) \<and> c4_isValidMove c4ThreeInRow 0 3
   \<and> dropLoop (board c4ThreeInRow) 3 0 6
       = ((board c4ThreeInRow)[3 := [None, None, None, None, None, Some 0]], 5)
   \<and> fourThrough ((board c4ThreeInRow)[3 := [None, None, None, None, None, Some 0]]) 0 3 5
   \<and> (\<exists>newGameState. c4_makeMove c4ThreeInRow 0 3 = NewObject newGameState
         \<and> board newGameState = (board c4ThreeInRow)[3 := [None, None, None, None, None, Some 0]]
         \<and> status newGameState = won \<and> winner newGameState = Num 0)
   \<and> reportsWin
        (c4_checkGameOver
           (c4ThreeInRow \<lparr> board := (board c4ThreeInRow)[3 := [None, None, None, None, None, Some 0]] \<rparr>)
           3 5 0)"
proof -
  have wf: "wfBoard (board c4ThreeInRow)"
    by (simp add: c4ThreeInRow_def wfBoard_def)
  have ok: "c4_isValidMove c4ThreeInRow 0 3"
    by (simp add: c4ThreeInRow_def c4_isValidMove_def cellAt_def at_def)
  have dr: "dropLoop (board c4ThreeInRow) 3 0 6
              = ((board c4ThreeInRow)[3 := [None, None, None, None, None, Some 0]], 5)"
    by (simp add: c4ThreeInRow_def cellAt_def at_def numeral_eq_Suc)
  have four: "fourThrough ((board c4ThreeInRow)[3 := [None, None, None, None, None, Some 0]]) 0 3 5"
    by (simp add: c4ThreeInRow_def fourThrough_def fourOnLine_def ownedCell_def directions_def)
  note T = c4_win_exact[OF wf ok dr]
  have ex: "\<exists>newGameState. c4_makeMove c4ThreeInRow 0 3 = NewObject newGameState
         \<and> board newGameState = (board c4ThreeInRow)[3 := [None, None, None, None, None, Some 0]]
         \<and> status newGameState = won \<and> winner newGameState = Num 0"
    using conjunct1[OF T] four by blast
  have rw: "reportsWin
        (c4_checkGameOver
           (c4ThreeInRow \<lparr> board := (board c4ThreeInRow)[3 := [None, None, None, None, None, Some 0]] \<rparr>)
           3 5 0)"
    using conjunct1[OF conjunct2[OF conjunct2[OF T]]] four by blast
  show ?thesis by (intro conjI wf ok dr four ex rw)
qed




subsection \<open>Four in a row elsewhere on the board\<close>

text \<open>
  \<^verbatim>\<open>checkGameOver\<close> looks at the lines through the last piece only, from that piece on.
  That loses nothing when no player has four in a row on the board before the move, as in
  every game that \<^verbatim>\<open>makeMove\<close> alone plays from \<^verbatim>\<open>init\<close>: after a valid move on such a board
  the status is \<^verbatim>\<open>won\<close> if and only if the mover has four in a row somewhere, and a board
  whose game goes on has no four in a row either. Where the handlers have put a won game
  back to \<^verbatim>\<open>playing\<close>, the board before the move does hold four in a row.
\<close>

lemma anyFour_iff:
  "anyFour b p \<longleftrightarrow> (\<exists>x y dx dy. (dx, dy) \<in> set directions \<and> fourAt b p x y dx dy)"
proof
  assume "anyFour b p"
  then show "\<exists>x y dx dy. (dx, dy) \<in> set directions \<and> fourAt b p x y dx dy"
    by (auto simp: anyFour_def list_ex_iff)
next
  assume "\<exists>x y dx dy. (dx, dy) \<in> set directions \<and> fourAt b p x y dx dy"
  then obtain x y dx dy where d: "(dx, dy) \<in> set directions" and f: "fourAt b p x y dx dy"
    by blast
  from f have "ownedCell b p x y" by (simp add: fourAt_def)
  then have "x \<in> set [0..6]" "y \<in> set [0..5]" by (auto simp: ownedCell_def)
  moreover have "\<exists>dd \<in> set directions. case dd of (dx, dy) \<Rightarrow> fourAt b p x y dx dy"
    using d f by (intro bexI[of _ "(dx, dy)"]) simp_all
  ultimately show "anyFour b p" unfolding anyFour_def list_ex_iff by blast
qed

lemma fourOnLine_iff:
  "fourOnLine b p x y dx dy \<longleftrightarrow> (\<exists>k \<in> {0, 1, 2, 3}. fourAt b p (x - k * dx) (y - k * dy) dx dy)"
  by (simp add: fourOnLine_def fourAt_def algebra_simps)

lemma fourThrough_lineHasFour: "fourThrough b p x y \<Longrightarrow> lineHasFour b p x y"
proof -
  assume "fourThrough b p x y"
  then obtain dx dy where d: "(dx, dy) \<in> set directions" and f: "fourOnLine b p x y dx dy"
    by (auto simp: fourThrough_def list_ex_iff)
  from f have "\<exists>k \<in> {0, 1, 2, 3}. fourAt b p (x - k * dx) (y - k * dy) dx dy"
    by (simp only: fourOnLine_iff)
  then obtain k where kin: "k \<in> {0, 1, 2, 3 :: int}"
    and k3: "fourAt b p (x - k * dx) (y - k * dy) dx dy" ..
  have k: "0 \<le> k" "k \<le> 3" using kin by auto
  have "- k \<in> {- 6..6}" using k by simp
  then have m: "- k \<in> set [- 6..6]" by (simp only: set_upto)
  have "fourAt b p (x + (- k) * dx) (y + (- k) * dy) dx dy" using k3 by simp
  then have "fourAlong b p x y dx dy" unfolding fourAlong_def list_ex_iff using m by (rule_tac bexI)
  then show "lineHasFour b p x y" using d unfolding lineHasFour_def list_ex_iff by (intro bexI[of _ "(dx, dy)"]) simp_all
qed

lemma ownedCell_placed:
  assumes "wfBoard b" "0 \<le> c" "c < 7" "r < 6"
  shows "ownedCell (b[nat c := (b ! nat c)[r := Some p]]) q x y
           \<longleftrightarrow> (if x = c \<and> y = int r then q = p else ownedCell b q x y)"
proof (cases "0 \<le> x \<and> x < 7 \<and> 0 \<le> y \<and> y < 6")
  case False
  then show ?thesis using assms by (auto simp: ownedCell_def)
next
  case True
  have lb: "length b = 7" using assms(1) by (simp add: wfBoard_def)
  have lc: "length (b ! nat c) = 6" using assms lb by (auto simp: wfBoard_def list_all_length)
  show ?thesis
  proof (cases "x = c")
    case True
    then show ?thesis using \<open>0 \<le> x \<and> x < 7 \<and> 0 \<le> y \<and> y < 6\<close> assms lb lc
      by (auto simp: ownedCell_def nth_list_update)
  next
    case False
    then have "nat x \<noteq> nat c" using True assms by auto
    then show ?thesis using False by (simp add: ownedCell_def)
  qed
qed

lemma placed_four:
  assumes wf: "wfBoard b" and c: "0 \<le> c" "c < 7" and r: "r < 6"
    and no: "noFour b" and d: "(dx, dy) \<in> set directions"
    and f: "fourAt (b[nat c := (b ! nat c)[r := Some p]]) q x y dx dy"
  shows "q = p \<and> fourOnLine (b[nat c := (b ! nat c)[r := Some p]]) p c (int r) dx dy"
proof -
  let ?b = "b[nat c := (b ! nat c)[r := Some p]]"
  have own: "\<forall>j \<in> {0, 1, 2, 3}. ownedCell ?b q (x + j * dx) (y + j * dy)"
    using f by (simp add: fourAt_def)
  show ?thesis
  proof (cases "\<exists>j \<in> {0, 1, 2, 3 :: int}. x + j * dx = c \<and> y + j * dy = int r")
    case True
    then obtain j where j: "j \<in> {0, 1, 2, 3 :: int}" "x + j * dx = c" "y + j * dy = int r"
      by blast
    have "ownedCell ?b q c (int r)" using own j by auto
    then have q: "q = p" using ownedCell_placed[OF wf c r] by simp
    have "x = c - j * dx" "y = int r - j * dy" using j by auto
    then have "fourAt ?b p (c - j * dx) (int r - j * dy) dx dy" using f q by simp
    then show ?thesis using q j(1) fourOnLine_iff by blast
  next
    case False
    then have "\<forall>j \<in> {0, 1, 2, 3}. ownedCell b q (x + j * dx) (y + j * dy)"
      using own ownedCell_placed[OF wf c r, of p q] by (auto split: if_splits)
    then have "fourAt b q x y dx dy" by (simp add: fourAt_def)
    then have "anyFour b q" using d anyFour_iff by blast
    then show ?thesis using no by (simp add: noFour_def)
  qed
qed

lemma anyFour_placed:
  assumes wf: "wfBoard b" and c: "0 \<le> c" "c < 7" and r: "r < 6" and no: "noFour b"
  shows "anyFour (b[nat c := (b ! nat c)[r := Some p]]) q
           \<longleftrightarrow> q = p \<and> fourThrough (b[nat c := (b ! nat c)[r := Some p]]) p c (int r)"
proof
  assume "anyFour (b[nat c := (b ! nat c)[r := Some p]]) q"
  then obtain x y dx dy where d: "(dx, dy) \<in> set directions"
    and f: "fourAt (b[nat c := (b ! nat c)[r := Some p]]) q x y dx dy"
    using anyFour_iff by blast
  from placed_four[OF wf c r no d f]
  show "q = p \<and> fourThrough (b[nat c := (b ! nat c)[r := Some p]]) p c (int r)"
    using d by (auto simp: fourThrough_def list_ex_iff)
next
  assume a: "q = p \<and> fourThrough (b[nat c := (b ! nat c)[r := Some p]]) p c (int r)"
  then obtain dx dy where d: "(dx, dy) \<in> set directions"
    and f: "fourOnLine (b[nat c := (b ! nat c)[r := Some p]]) p c (int r) dx dy"
    by (auto simp: fourThrough_def list_ex_iff)
  then obtain k where "fourAt (b[nat c := (b ! nat c)[r := Some p]]) p (c - k * dx) (int r - k * dy) dx dy"
    using fourOnLine_iff by blast
  then show "anyFour (b[nat c := (b ! nat c)[r := Some p]]) q"
    using a d anyFour_iff by blast
qed

lemma c4_win_anywhere:
  assumes "wfBoard (board gs)" "c4_isValidMove gs p column" "noFour (board gs)"
  shows "status (c4_newGameState gs p column) = won
           \<longleftrightarrow> anyFour (board (c4_newGameState gs p column)) p"
    and "status (c4_newGameState gs p column) = playing
           \<longrightarrow> noFour (board (c4_newGameState gs p column))"
proof -
  obtain r where r: "r < 6"
    "dropLoop (board gs) column p 6
       = ((board gs)[nat column := (board gs ! nat column)[r := Some p]], int r)"
    using dropLoop_valid[OF assms(1,2)] by blast
  have v: "0 \<le> column" "column < 7" using valid_top_empty[OF assms(1,2)] by auto
  let ?b = "(board gs)[nat column := (board gs ! nat column)[r := Some p]]"
  have nb: "board (c4_newGameState gs p column) = ?b"
    using r(2) by (simp add: c4_newGameState_def Let_def split: gameOverResult.splits)
  have wf: "wfBoard ?b" by (rule wfBoard_update[OF assms(1)])
  have own: "ownedCell ?b p column (int r)" by (rule ownedCell_update[OF assms(1) v r(1)])
  have st: "status (c4_newGameState gs p column) = won \<longleftrightarrow> fourThrough ?b p column (int r)"
    using c4_won_iff(1)[OF assms(2) r(2)]
          c4_checkGameOver_win[of "gs \<lparr> board := ?b \<rparr>" p column "int r"] wf own
    by simp
  show "status (c4_newGameState gs p column) = won
           \<longleftrightarrow> anyFour (board (c4_newGameState gs p column)) p"
    using st anyFour_placed[OF assms(1) v r(1) assms(3), of p p] nb by simp
  show "status (c4_newGameState gs p column) = playing
           \<longrightarrow> noFour (board (c4_newGameState gs p column))"
    using st anyFour_placed[OF assms(1) v r(1) assms(3), of p] nb
    by (auto simp: noFour_def)
qed

lemma noFour_init: "noFour (board c4_init)"
  by (auto simp: noFour_def anyFour_iff fourAt_def ownedCell_def c4_init_def)

subsection \<open>The shape of the boards\<close>

text \<open>
  The boards have the shape that the properties above assume: \<^verbatim>\<open>init\<close> creates it and
  \<^verbatim>\<open>makeMove\<close> keeps it.
\<close>

lemma wfBoard_init: "wfBoard (board c4_init)"
  by (simp add: wfBoard_def c4_init_def list_all_iff)

lemma wfBoard_makeMove:
  assumes "wfBoard (board gs)"
  shows "wfBoard (board (stateAfter gs (c4_makeMove gs p column)))"
proof (cases "c4_isValidMove gs p column")
  case False
  then show ?thesis using assms by (simp add: c4_makeMove_def)
next
  case True
  obtain r where "dropLoop (board gs) column p 6
       = ((board gs)[nat column := (board gs ! nat column)[r := Some p]], int r)"
    using dropLoop_valid[OF assms True] by blast
  then have "board (c4_newGameState gs p column)
       = (board gs)[nat column := (board gs ! nat column)[r := Some p]]"
    by (simp add: c4_newGameState_def Let_def split: gameOverResult.splits)
  then show ?thesis using True wfBoard_update[OF assms] by (simp add: c4_makeMove_def)
qed

lemma ttt_length_init: "length (board ttt_init) = 9"
  by (simp add: ttt_init_def)

lemma ttt_length_makeMove:
  "length (board (stateAfter gs (ttt_makeMove gs p m))) = length (board gs)"
  by (simp add: ttt_makeMove_def ttt_newGameState_def Let_def split: gameOverResult.splits)



section \<open>Properties of sequences of moves\<close>

lemma ttt_checkGameOver_status:
  "ttt_checkGameOver gs = Over st w h \<Longrightarrow> st = won \<or> st = draw"
proof (cases "ttt_scan (board gs) winPatterns")
  case None
  assume "ttt_checkGameOver gs = Over st w h"
  then show ?thesis using None by (auto simp: ttt_checkGameOver_def split: if_splits)
next
  case (Some r)
  assume a: "ttt_checkGameOver gs = Over st w h"
  have "\<And>ps. ttt_scan (board gs) ps = Some r \<Longrightarrow> \<exists>w h. r = Over won w h"
  proof -
    fix ps show "ttt_scan (board gs) ps = Some r \<Longrightarrow> \<exists>w h. r = Over won w h"
      by (induction "board gs" ps rule: ttt_scan.induct) (auto split: if_splits)
  qed
  then show ?thesis using Some a by (auto simp: ttt_checkGameOver_def)
qed

lemma c4_checkGameOver_status:
  "c4_checkGameOver gs x y p = Over st w h \<Longrightarrow> st = won \<or> st = draw"
proof (cases "c4_lines (board gs) p x y directions")
  case None
  assume "c4_checkGameOver gs x y p = Over st w h"
  then show ?thesis using None by (auto simp: c4_checkGameOver_def split: if_splits)
next
  case (Some r)
  assume "c4_checkGameOver gs x y p = Over st w h"
  then show ?thesis using Some c4_lines_Some[OF Some] by (auto simp: c4_checkGameOver_def)
qed

lemma next_is_mod: "c < 2 \<Longrightarrow> (if c = (0::nat) then 1 else 0) = (c + 1) mod 2"
  by (auto simp: less_2_cases_iff)

lemma ttt_step:
  assumes "ttt_isValidMove s p m" "currentPlayer s < 2"
  shows "(status (ttt_newGameState s p m) = playing
            \<and> currentPlayer (ttt_newGameState s p m) = (currentPlayer s + 1) mod 2)
       \<or> ((status (ttt_newGameState s p m) = won \<or> status (ttt_newGameState s p m) = draw)
            \<and> currentPlayer (ttt_newGameState s p m) = currentPlayer s)"
proof -
  have pl: "status s = playing" using assms(1) by (auto simp: ttt_isValidMove_def split: if_splits)
  show ?thesis
  proof (cases "ttt_checkGameOver (s \<lparr> board := (board s)[nat m := Some p] \<rparr>)")
    case NotOver
    then show ?thesis using pl next_is_mod[OF assms(2)]
      by (simp add: ttt_newGameState_def Let_def ttt_getNextPlayer_def)
  next
    case (Over st w h)
    then show ?thesis using ttt_checkGameOver_status[OF Over]
      by (auto simp: ttt_newGameState_def Let_def)
  qed
qed

lemma c4_step:
  assumes "c4_isValidMove s p m" "currentPlayer s < 2"
  shows "(status (c4_newGameState s p m) = playing
            \<and> currentPlayer (c4_newGameState s p m) = (currentPlayer s + 1) mod 2)
       \<or> ((status (c4_newGameState s p m) = won \<or> status (c4_newGameState s p m) = draw)
            \<and> currentPlayer (c4_newGameState s p m) = currentPlayer s)"
proof -
  have pl: "status s = playing" using assms(1) by (auto simp: c4_isValidMove_def split: if_splits)
  obtain b row where d: "dropLoop (board s) m p 6 = (b, row)" by (cases "dropLoop (board s) m p 6")
  show ?thesis
  proof (cases "c4_checkGameOver (s \<lparr> board := b \<rparr>) m row p")
    case NotOver
    then show ?thesis using pl next_is_mod[OF assms(2)] d
      by (simp add: c4_newGameState_def Let_def c4_getNextPlayer_def)
  next
    case (Over st w h)
    then show ?thesis using c4_checkGameOver_status[OF Over] d
      by (auto simp: c4_newGameState_def Let_def)
  qed
qed




subsection \<open>Drops into one column\<close>

lemma cellAt_stack:
  assumes "0 \<le> column" "column < 7" "length col = 6"
  shows "cellAt (board (stack col column p)) x y =
     (if x = column then at col y
      else if 0 \<le> x \<and> x < 7 \<and> 0 \<le> y \<and> y < 6 then Null else Undefined)"
  using assms by (auto simp: cellAt_def stack_def at_def nth_list_update)

lemma stack_board_update:
  assumes "0 \<le> column" "column < 7"
  shows "(board (stack col column p))[nat column := (board (stack col column p) ! nat column)[r := v]]
           = board (stack (col[r := v]) column p)"
  using assms by (simp add: stack_def)

lemma stack_board_upd: "stack col column p \<lparr> board := board (stack col' column p') \<rparr> = stack col' column p"
  by (simp add: stack_def)

lemma stack_next: "stack col column p \<lparr> currentPlayer := q \<rparr> = stack col column q"
  by (simp add: stack_def)

lemma stack_fields: "currentPlayer (stack col column p) = p" "status (stack col column p) = playing"
  by (simp_all add: stack_def)

lemma not_full:
  assumes "0 \<le> column" "column < 7"
  shows "\<not> list_all (\<lambda>column. at column 0 \<noteq> Null) (board (stack col column p))"
proof -
  define n where "n = (if nat column = 0 then 1 else (0::nat))"
  have "n < 7" "n \<noteq> nat column" by (auto simp: n_def)
  then have "n < length (board (stack col column p))"
    "at (board (stack col column p) ! n) 0 = Null"
    by (auto simp: stack_def at_def)
  then show ?thesis by (auto simp: list_all_length)
qed

lemma c4_checkGameOver_stack:
  assumes "0 \<le> column" "column < 7"
  shows "c4_checkGameOver (stack col column p) x y q =
     (case c4_lines (board (stack col column p)) q x y directions of
        Some r \<Rightarrow> r | None \<Rightarrow> NotOver)"
  by (simp add: c4_checkGameOver_def not_full[OF assms])

lemmas drop_eval =
  c4_makeMove_def c4_isValidMove_def c4_newGameState_def cellAt_stack stack_fields at_def
  numeral_eq_Suc stack_board_update stack_board_upd Let_def c4_checkGameOver_stack
  directions_def lineCells_def scanLine.simps c4_getNextPlayer_def stack_next

lemma drop_steps:
  assumes "0 \<le> column" "column < 7"
  shows "c4_makeMove (stack [None, None, None, None, None, None] column 0) 0 column
           = NewObject (stack [None, None, None, None, None, Some 0] column (Suc 0))"
    and "c4_makeMove (stack [None, None, None, None, None, Some 0] column (Suc 0)) (Suc 0) column
           = NewObject (stack [None, None, None, None, Some (Suc 0), Some 0] column 0)"
    and "c4_makeMove (stack [None, None, None, None, Some (Suc 0), Some 0] column 0) 0 column
           = NewObject (stack [None, None, None, Some 0, Some (Suc 0), Some 0] column (Suc 0))"
    and "c4_makeMove (stack [None, None, None, Some 0, Some (Suc 0), Some 0] column (Suc 0)) (Suc 0) column
           = NewObject (stack [None, None, Some (Suc 0), Some 0, Some (Suc 0), Some 0] column 0)"
    and "c4_makeMove (stack [None, None, Some (Suc 0), Some 0, Some (Suc 0), Some 0] column 0) 0 column
           = NewObject (stack [None, Some 0, Some (Suc 0), Some 0, Some (Suc 0), Some 0] column (Suc 0))"
    and "c4_makeMove (stack [None, Some 0, Some (Suc 0), Some 0, Some (Suc 0), Some 0] column (Suc 0)) (Suc 0) column
           = NewObject (stack [Some (Suc 0), Some 0, Some (Suc 0), Some 0, Some (Suc 0), Some 0] column 0)"
  using assms by (simp_all add: drop_eval)

lemma full_stack_rejects:
  assumes "0 \<le> column" "column < 7"
  shows "c4_makeMove (stack [Some (Suc 0), Some 0, Some (Suc 0), Some 0, Some (Suc 0), Some 0] column q) p column
           = SameObject"
  using assms by (simp add: c4_makeMove_def c4_isValidMove_def cellAt_stack at_def)

lemma fresh_is_stack:
  assumes "0 \<le> column" "column < 7"
  shows "c4_init \<lparr> status := playing \<rparr> = stack [None, None, None, None, None, None] column 0"
proof -
  have r6: "[None, None, None, None, None, None] = replicate 6 (None :: cell)"
    by (simp add: numeral_eq_Suc)
  have "replicate 7 (replicate 6 None) ! nat column = replicate 6 (None :: cell)"
    using assms by simp
  then have "(replicate 7 (replicate 6 None))[nat column := replicate 6 None]
          = replicate 7 (replicate 6 (None :: cell))"
    by (metis list_update_id)
  then show ?thesis by (simp only: r6) (simp add: c4_init_def stack_def)
qed

text \<open>
  Claim C6. From a fresh state in progress (\<^verbatim>\<open>init\<close> with status \<^verbatim>\<open>playing\<close>), let the two
  players drop in turn into one column, player 0 first. After the seventh drop the column
  is full: each of its six cells is occupied. The eighth drop into the column, whoever
  makes it, is rejected: \<^verbatim>\<open>makeMove\<close> returns the object it was given.
\<close>

theorem c4_same_column:
  assumes "0 \<le> column" "column < 7"
  shows "let s7 = last (playMoves c4_makeMove (c4_init \<lparr> status := playing \<rparr>)
                          (sameColumnDrops column))
         in length (board s7 ! nat column) = 6
            \<and> list_all (\<lambda>c. c \<noteq> None) (board s7 ! nat column)
            \<and> (\<forall>p. c4_makeMove s7 p column = SameObject)"
proof -
  have s7: "last (playMoves c4_makeMove (c4_init \<lparr> status := playing \<rparr>)
                          (sameColumnDrops column))
            = stack [Some (Suc 0), Some 0, Some (Suc 0), Some 0, Some (Suc 0), Some 0] column 0"
    by (simp add: sameColumnDrops_def fresh_is_stack[OF assms] drop_steps[OF assms]
          full_stack_rejects[OF assms])
  have "board (stack [Some (Suc 0), Some 0, Some (Suc 0), Some 0, Some (Suc 0), Some 0] column 0) ! nat column
          = [Some (Suc 0), Some 0, Some (Suc 0), Some 0, Some (Suc 0), Some 0]"
    using assms by (simp add: stack_def)
  then show ?thesis
    using full_stack_rejects[OF assms] by (simp add: s7 Let_def)
qed

theorem c4_same_column_witness:
  "(0::int) \<le> 3 \<and> (3::int) < 7
   \<and> list_all (\<lambda>c. c \<noteq> None)
        (board (last (playMoves c4_makeMove (c4_init \<lparr> status := playing \<rparr>)
                        (sameColumnDrops 3))) ! nat 3)
   \<and> c4_makeMove (last (playMoves c4_makeMove (c4_init \<lparr> status := playing \<rparr>)
                          (sameColumnDrops 3))) 1 3 = SameObject"
proof -
  have z: "(0::int) \<le> 3" "(3::int) < 7" by simp_all
  show ?thesis using c4_same_column[OF z] z by (simp add: Let_def)
qed

text \<open>
  The column is full after the sixth drop already: the seventh drop is itself rejected,
  and the state after seven drops is the state after six.
\<close>

lemma seventh_drop_rejected:
  assumes "0 \<le> column" "column < 7"
  shows "last (playMoves c4_makeMove (c4_init \<lparr> status := playing \<rparr>)
                 (butlast (sameColumnDrops column)))
           = last (playMoves c4_makeMove (c4_init \<lparr> status := playing \<rparr>)
                 (sameColumnDrops column))"
  by (simp add: sameColumnDrops_def fresh_is_stack[OF assms] drop_steps[OF assms]
          full_stack_rejects[OF assms])

text \<open>
  The turn is with seat 0 or 1 in every state of a game: \<^verbatim>\<open>init\<close> gives it to seat 0 and
  \<^verbatim>\<open>makeMove\<close> keeps it with one of the two.
\<close>

lemma seat_init: "currentPlayer ttt_init < 2 \<and> currentPlayer c4_init < 2"
  by (simp add: ttt_init_def c4_init_def)

lemma ttt_seat_kept:
  assumes "currentPlayer gs < 2"
  shows "currentPlayer (stateAfter gs (ttt_makeMove gs p m)) < 2"
proof (cases "ttt_isValidMove gs p m")
  case True
  then show ?thesis using ttt_step[OF True assms] assms by (auto simp: ttt_makeMove_def)
next
  case False
  then show ?thesis using assms by (simp add: ttt_makeMove_def)
qed

lemma c4_seat_kept:
  assumes "currentPlayer gs < 2"
  shows "currentPlayer (stateAfter gs (c4_makeMove gs p m)) < 2"
proof (cases "c4_isValidMove gs p m")
  case True
  then show ?thesis using c4_step[OF True assms] assms by (auto simp: c4_makeMove_def)
next
  case False
  then show ?thesis using assms by (simp add: c4_makeMove_def)
qed


section \<open>Properties of the socket handlers\<close>

lemma lookup_setRoom:
  "lookupRoom (setRoom rooms k r) k' = (if k' = k then Some r else lookupRoom rooms k')"
  by (induction rooms) (auto simp: lookupRoom_def)

lemma lookup_deleteRoom:
  "lookupRoom (deleteRoom rooms k) k' = (if k' = k then None else lookupRoom rooms k')"
  by (induction rooms) (auto simp: lookupRoom_def deleteRoom_def)

lemma findIndex_Some: "findIndex f xs = Some i \<Longrightarrow> \<exists>x \<in> set xs. f x"
  by (induction xs arbitrary: i) (auto split: if_splits)

lemma find_None_not_member:
  "socketId \<notin> set (map sockId ps) \<Longrightarrow> find (\<lambda>p. sockId p = socketId) ps = None"
  by (induction ps) auto

lemma disconnectLoop_spectator:
  assumes "lookupRoom rooms k = Some rk"
    "findIndex (\<lambda>p. sockId p = socketId) (players rk) = None"
    "findIndex (\<lambda>s. sockId s = socketId) (spectators rk) = Some j"
  shows "fst (disconnectLoop socketId (k # ks) rooms)
           = fst (disconnectLoop socketId ks
                    (setRoom rooms k (rk \<lparr> spectators := splice1 j (spectators rk) \<rparr>)))"
  using assms by (simp add: Let_def split: prod.splits)

lemma disconnectLoop_keeps_state:
  assumes "lookupRoom rooms rid = Some room" "socketId \<notin> set (map sockId (players room))"
  shows "\<exists>room'. lookupRoom (fst (disconnectLoop socketId ks rooms)) rid = Some room'
           \<and> gameState room' = gameState room \<and> players room' = players room"
  using assms
proof (induction ks arbitrary: rooms room)
  case Nil
  then show ?case by simp
next
  case (Cons k ks)
  show ?case
  proof (cases "lookupRoom rooms k")
    case None
    then show ?thesis using Cons.IH[OF Cons.prems] by simp
  next
    case (Some rk)
    show ?thesis
    proof (cases "findIndex (\<lambda>p. sockId p = socketId) (players rk)")
      case (Some i)
      then have "\<exists>p \<in> set (players rk). sockId p = socketId" by (rule findIndex_Some)
      then have "k \<noteq> rid" using Cons.prems \<open>lookupRoom rooms k = Some rk\<close> by auto
      then show ?thesis
        using Some \<open>lookupRoom rooms k = Some rk\<close> Cons.prems(1)
        by (simp add: Let_def lookup_setRoom lookup_deleteRoom)
    next
      case None
      note np = None
      show ?thesis
      proof (cases "findIndex (\<lambda>s. sockId s = socketId) (spectators rk)")
        case None
        then show ?thesis
          using np \<open>lookupRoom rooms k = Some rk\<close> Cons.IH[OF Cons.prems] by simp
      next
        case (Some j)
        define rk' where "rk' = rk \<lparr> spectators := splice1 j (spectators rk) \<rparr>"
        define room2 where "room2 = (if rid = k then rk' else room)"
        have l: "lookupRoom (setRoom rooms k rk') rid = Some room2"
          using Cons.prems(1) by (simp add: lookup_setRoom room2_def)
        have same: "gameState room2 = gameState room" "players room2 = players room"
          using Cons.prems(1) \<open>lookupRoom rooms k = Some rk\<close>
          by (auto simp: room2_def rk'_def)
        have "socketId \<notin> set (map sockId (players room2))" using same Cons.prems(2) by simp
        from Cons.IH[OF l this] obtain room' where
          "lookupRoom (fst (disconnectLoop socketId ks (setRoom rooms k rk'))) rid = Some room'"
          "gameState room' = gameState room2" "players room' = players room2" by blast
        then show ?thesis
          using disconnectLoop_spectator[OF \<open>lookupRoom rooms k = Some rk\<close> np Some, of ks] same
          by (simp add: rk'_def)
      qed
    qed
  qed
qed

lemma disconnectLoop_status_only:
  assumes "lookupRoom (fst (disconnectLoop socketId ks rooms)) rid = Some room'"
  shows "\<exists>room. lookupRoom rooms rid = Some room \<and> gameInstance room' = gameInstance room
           \<and> (gameState room' = gameState room
               \<or> gameState room' = (gameState room) \<lparr> status := waiting \<rparr>)"
  using assms
proof (induction ks arbitrary: rooms)
  case Nil
  then show ?case by simp
next
  case (Cons k ks)
  show ?case
  proof (cases "lookupRoom rooms k")
    case None
    then show ?thesis using Cons by simp
  next
    case (Some rk)
    note rk = Some
    show ?thesis
    proof (cases "findIndex (\<lambda>p. sockId p = socketId) (players rk)")
      case (Some i)
      then show ?thesis
        using rk Cons.prems
        by (cases "rid = k")
           (auto simp: Let_def lookup_setRoom lookup_deleteRoom split: if_splits)
    next
      case None
      note np = None
      show ?thesis
      proof (cases "findIndex (\<lambda>s. sockId s = socketId) (spectators rk)")
        case None
        then show ?thesis using np rk Cons by simp
      next
        case (Some j)
        define rk' where "rk' = rk \<lparr> spectators := splice1 j (spectators rk) \<rparr>"
        have "lookupRoom (fst (disconnectLoop socketId ks (setRoom rooms k rk'))) rid = Some room'"
          using Cons.prems disconnectLoop_spectator[OF rk np Some, of ks] by (simp add: rk'_def)
        from Cons.IH[OF this] obtain r2 where r2:
          "lookupRoom (setRoom rooms k rk') rid = Some r2" "gameInstance room' = gameInstance r2"
          "gameState room' = gameState r2 \<or> gameState room' = (gameState r2) \<lparr> status := waiting \<rparr>"
          by blast
        show ?thesis
        proof (cases "rid = k")
          case True
          then have "r2 = rk'" using r2(1) by (simp add: lookup_setRoom)
          then show ?thesis using r2 rk True by (auto simp: rk'_def)
        next
          case False
          then show ?thesis using r2 by (simp add: lookup_setRoom)
        qed
      qed
    qed
  qed
qed

text \<open>
  Claim C3. In both games \<^verbatim>\<open>makeMove\<close> returns the very object it was given whenever
  \<^verbatim>\<open>isValidMove\<close> is false. The handler of \<^verbatim>\<open>makeMove\<close> events, for a sender seated in the
  room, leaves the registry as it is and sends nothing when the game returns that same
  object; when the game returns a new object, it stores that object in the room and
  broadcasts it to the room. It does nothing either when the room does not exist or the
  sender has no seat in it. So an invalid move changes nothing and nothing is broadcast.
\<close>

theorem invalid_move_is_noop:
  "(\<not> ttt_isValidMove gs p m \<longrightarrow> ttt_makeMove gs p m = SameObject)
   \<and> (\<not> c4_isValidMove gs' p' m' \<longrightarrow> c4_makeMove gs' p' m' = SameObject)
   \<and> (lookupRoom rooms rid = Some room
        \<and> find (\<lambda>q. sockId q = socketId) (players room) = Some player \<longrightarrow>
        (case makeMove (gameInstance room) (gameState room) (index player) move of
           SameObject \<Rightarrow> onMakeMove rooms socketId rid move = (rooms, [])
         | NewObject newGameState \<Rightarrow>
             onMakeMove rooms socketId rid move
               = (setRoom rooms rid (room \<lparr> gameState := newGameState \<rparr>),
                  [toRoom rid (gameStateUpdate newGameState)])))
   \<and> (lookupRoom rooms rid = None
        \<or> (lookupRoom rooms rid = Some room
            \<and> find (\<lambda>q. sockId q = socketId) (players room) = None) \<longrightarrow>
        onMakeMove rooms socketId rid move = (rooms, []))
   \<and> (lookupRoom trooms rid = Some troom
        \<and> find (\<lambda>q. sockId q = socketId) (players troom) = Some player
        \<and> gameInstance troom = TicTacToeGame
        \<and> \<not> ttt_isValidMove (gameState troom) (index player) move \<longrightarrow>
        onMakeMove trooms socketId rid move = (trooms, []))
   \<and> (lookupRoom crooms rid = Some croom
        \<and> find (\<lambda>q. sockId q = socketId) (players croom) = Some player
        \<and> gameInstance croom = Connect4Game
        \<and> \<not> c4_isValidMove (gameState croom) (index player) move \<longrightarrow>
        onMakeMove crooms socketId rid move = (crooms, []))"
  by (auto simp: ttt_makeMove_def c4_makeMove_def onMakeMove_def TicTacToeGame_def
           Connect4Game_def Let_def
           split: returned.splits)

theorem invalid_move_is_noop_witness:
  "\<not> ttt_isValidMove tttMidGame 0 0
   \<and> ttt_makeMove tttMidGame 0 0 = SameObject
   \<and> lookupRoom [(''ab12cd'', fullRoom)] ''ab12cd'' = Some fullRoom
   \<and> find (\<lambda>q. sockId q = ''s1'') (players fullRoom) = Some alice
   \<and> gameInstance fullRoom = TicTacToeGame
   \<and> \<not> ttt_isValidMove (gameState fullRoom) (index alice) 0
   \<and> onMakeMove [(''ab12cd'', fullRoom)] ''s1'' ''ab12cd'' 0 = ([(''ab12cd'', fullRoom)], [])"
proof -
  have inv: "\<not> ttt_isValidMove tttMidGame 0 0"
    by (simp add: tttMidGame_def ttt_isValidMove_def)
  have l: "lookupRoom [(''ab12cd'', fullRoom)] ''ab12cd'' = Some fullRoom"
    by (simp add: lookupRoom_def)
  have f: "find (\<lambda>q. sockId q = ''s1'') (players fullRoom) = Some alice"
    by (simp add: fullRoom_def alice_def)
  have g: "gameInstance fullRoom = TicTacToeGame" by (simp add: fullRoom_def)
  have inv2: "\<not> ttt_isValidMove (gameState fullRoom) (index alice) 0"
    using inv by (simp add: fullRoom_def alice_def)
  note T = invalid_move_is_noop[of tttMidGame 0 0 c4_init 0 0 "[]" "''ab12cd''" fullRoom "''s1''"
             alice 0 "[(''ab12cd'', fullRoom)]" fullRoom]
  have same: "ttt_makeMove tttMidGame 0 0 = SameObject"
    using T inv by blast
  have noop: "onMakeMove [(''ab12cd'', fullRoom)] ''s1'' ''ab12cd'' 0 = ([(''ab12cd'', fullRoom)], [])"
    using T l f g inv2 by blast
  show ?thesis by (intro conjI inv same l f g inv2 noop)
qed

text \<open>
  Claim C7. For a room that exists, whatever its state and the number of its players, and
  whoever sends the event, the handler of \<^verbatim>\<open>resetGame\<close> stores in the room the state that
  \<^verbatim>\<open>init\<close> of the room's game returns with its status overwritten by \<^verbatim>\<open>playing\<close>, and
  broadcasts it. The players and the spectators of the room, its game and its identifier
  are as before, and so is every other room. The board that \<^verbatim>\<open>init\<close> returns is empty in
  both games.
\<close>

theorem reset_restores:
  assumes "lookupRoom rooms rid = Some room"
  shows "(\<exists>room'. onResetGame rooms socketId rid
                    = (setRoom rooms rid room', [toRoom rid (gameReset (gameState room'))])
           \<and> lookupRoom (fst (onResetGame rooms socketId rid)) rid = Some room'
           \<and> gameState room' = (init (gameInstance room)) \<lparr> status := playing \<rparr>
           \<and> status (gameState room') = playing
           \<and> board (gameState room') = board (init (gameInstance room))
           \<and> players room' = players room \<and> spectators room' = spectators room
           \<and> gameInstance room' = gameInstance room \<and> gameType room' = gameType room
           \<and> roomId room' = roomId room)
       \<and> (\<forall>k. k \<noteq> rid \<longrightarrow>
              lookupRoom (fst (onResetGame rooms socketId rid)) k = lookupRoom rooms k)
       \<and> list_all (\<lambda>c. c = None) (board (init TicTacToeGame))
       \<and> list_all (list_all (\<lambda>c. c = None)) (board (init Connect4Game))"
  using assms
  by (simp add: onResetGame_def Let_def lookup_setRoom TicTacToeGame_def Connect4Game_def
        ttt_init_def c4_init_def list_all_iff)

theorem reset_restores_witness:
  "lookupRoom [(''ab12cd'', waitingRoom)] ''ab12cd'' = Some waitingRoom
   \<and> length (players waitingRoom) < 2
   \<and> map_option gameState
        (lookupRoom (fst (onResetGame [(''ab12cd'', waitingRoom)] ''s9'' ''ab12cd'')) ''ab12cd'')
       = Some (ttt_init \<lparr> status := playing \<rparr>)
   \<and> map_option players
        (lookupRoom (fst (onResetGame [(''ab12cd'', waitingRoom)] ''s9'' ''ab12cd'')) ''ab12cd'')
       = Some [alice]"
proof -
  have l: "lookupRoom [(''ab12cd'', waitingRoom)] ''ab12cd'' = Some waitingRoom"
    by (simp add: lookupRoom_def)
  have n: "length (players waitingRoom) < 2" by (simp add: waitingRoom_def)
  from reset_restores[OF l, of "''s9''"] obtain room' where r:
    "lookupRoom (fst (onResetGame [(''ab12cd'', waitingRoom)] ''s9'' ''ab12cd'')) ''ab12cd''
       = Some room'"
    "gameState room' = (init (gameInstance waitingRoom)) \<lparr> status := playing \<rparr>"
    "players room' = players waitingRoom"
    by blast
  have "gameState room' = ttt_init \<lparr> status := playing \<rparr>" "players room' = [alice]"
    using r(2,3) by (simp_all add: waitingRoom_def TicTacToeGame_def)
  then show ?thesis using l n r(1) by simp
qed

text \<open>
  Claim C8 does not hold as stated. When the second player joins a room, the handler of
  \<^verbatim>\<open>joinRoom\<close> writes \<^verbatim>\<open>playing\<close> into the status of the stored state: the state after the
  step is not the state before it, nor an object that \<^verbatim>\<open>makeMove\<close> returns for it, nor the
  state that \<^verbatim>\<open>init\<close> returns.
\<close>

theorem coordinator_writes_status_counterexample:
  "map_option gameState
     (lookupRoom (fst (handle tttGameTypes [(''ab12cd'', waitingRoom)] ''s2''
                         (JoinRoom ''ab12cd'' ''Bob''))) ''ab12cd'')
     = Some (ttt_init \<lparr> status := playing \<rparr>)
   \<and> lookupRoom [(''ab12cd'', waitingRoom)] ''ab12cd'' = Some waitingRoom
   \<and> gameState waitingRoom = ttt_init
   \<and> \<not> engineOnly (gameInstance waitingRoom) ttt_init (ttt_init \<lparr> status := playing \<rparr>)"
proof -
  have a: "map_option gameState
     (lookupRoom (fst (handle tttGameTypes [(''ab12cd'', waitingRoom)] ''s2''
                         (JoinRoom ''ab12cd'' ''Bob''))) ''ab12cd'')
     = Some (ttt_init \<lparr> status := playing \<rparr>)"
    by (simp add: onJoinRoom_def lookupRoom_def waitingRoom_def TicTacToeGame_def
          ttt_getMaxPlayers_def Let_def)
  have b: "lookupRoom [(''ab12cd'', waitingRoom)] ''ab12cd'' = Some waitingRoom"
    by (simp add: lookupRoom_def)
  have c: "gameState waitingRoom = ttt_init" by (simp add: waitingRoom_def)
  have d1: "ttt_init \<lparr> status := playing \<rparr> \<noteq> ttt_init" by (simp add: ttt_init_def)
  have d2: "\<forall>p m. makeMove (gameInstance waitingRoom) ttt_init p m = SameObject"
    by (simp add: waitingRoom_def TicTacToeGame_def ttt_makeMove_def ttt_isValidMove_def
          ttt_init_def)
  have d3: "ttt_init \<lparr> status := playing \<rparr> \<noteq> init (gameInstance waitingRoom)"
    by (simp add: waitingRoom_def TicTacToeGame_def ttt_init_def)
  have d: "\<not> engineOnly (gameInstance waitingRoom) ttt_init (ttt_init \<lparr> status := playing \<rparr>)"
    using d1 d2 d3 by (simp add: engineOnly_def)
  show ?thesis by (intro conjI a b c d)
qed

lemma onCreateRoom_state:
  assumes "lookupRoom (fst (onCreateRoom gameTypes rooms socketId uuid name gameTypeArg)) rid
             = Some room'"
  shows "lookupRoom rooms rid = Some room'
         \<or> (take 6 uuid = rid \<and> gameState room' = init (gameInstance room'))"
  using assms
  by (auto simp: onCreateRoom_def Let_def lookup_setRoom split: option.splits if_splits)

lemma onJoinRoom_state:
  assumes "lookupRoom (fst (onJoinRoom rooms socketId r name)) rid = Some room'"
  shows "\<exists>room. lookupRoom rooms rid = Some room \<and> gameInstance room' = gameInstance room
           \<and> (gameState room' = gameState room
               \<or> gameState room' = (gameState room) \<lparr> status := playing \<rparr>)"
  using assms
  by (auto simp: onJoinRoom_def Let_def lookup_setRoom split: option.splits if_splits)

lemma onMakeMove_state:
  assumes "lookupRoom (fst (onMakeMove rooms socketId r move)) rid = Some room'"
  shows "\<exists>room. lookupRoom rooms rid = Some room \<and> gameInstance room' = gameInstance room
           \<and> (gameState room' = gameState room
               \<or> (\<exists>p m. makeMove (gameInstance room) (gameState room) p m
                            = NewObject (gameState room')))"
  using assms
  by (auto simp: onMakeMove_def Let_def lookup_setRoom
           split: option.splits if_splits returned.splits)

lemma onResetGame_state:
  assumes "lookupRoom (fst (onResetGame rooms socketId r)) rid = Some room'"
  shows "\<exists>room. lookupRoom rooms rid = Some room \<and> gameInstance room' = gameInstance room
           \<and> (gameState room' = gameState room
               \<or> gameState room' = (init (gameInstance room)) \<lparr> status := playing \<rparr>)"
  using assms
  by (auto simp: onResetGame_def Let_def lookup_setRoom split: option.splits if_splits)

text \<open>
  Claim C8, amended. After any handler has run, the state of a room that was there before
  is the state before the step, or a new object that \<^verbatim>\<open>makeMove\<close> of the room's game
  returned for it, or differs in the field \<^verbatim>\<open>status\<close> alone, which the handlers write
  themselves, from the state before the step (\<^verbatim>\<open>playing\<close> on a join, \<^verbatim>\<open>waiting\<close> on a
  disconnect) or from the state that \<^verbatim>\<open>init\<close> returns (\<^verbatim>\<open>playing\<close> on a reset). The state of
  a room that \<^verbatim>\<open>createRoom\<close> has just stored is the state that \<^verbatim>\<open>init\<close> returns.
\<close>

theorem coordinator_writes_status_only:
  assumes "lookupRoom (fst (handle gameTypes rooms socketId ev)) rid = Some room'"
  shows "(\<exists>room. lookupRoom rooms rid = Some room \<and> gameInstance room' = gameInstance room
            \<and> engineOrStatus (gameInstance room) (gameState room) (gameState room'))
         \<or> ((\<exists>name gameTypeArg uuid. ev = CreateRoom name gameTypeArg uuid \<and> take 6 uuid = rid)
            \<and> gameState room' = init (gameInstance room'))"
proof (cases ev)
  case (CreateRoom name gameTypeArg uuid)
  then show ?thesis
    using onCreateRoom_state[of gameTypes rooms socketId uuid name gameTypeArg rid room'] assms
    by (auto simp: engineOrStatus_def)
next
  case (JoinRoom r name)
  then show ?thesis
    using onJoinRoom_state[of rooms socketId r name rid room'] assms
    by (auto simp: engineOrStatus_def)
next
  case (MakeMove r move)
  then show ?thesis
    using onMakeMove_state[of rooms socketId r move rid room'] assms
    by (auto simp: engineOrStatus_def)
next
  case (ResetGame r)
  then show ?thesis
    using onResetGame_state[of rooms socketId r rid room'] assms
    by (auto simp: engineOrStatus_def)
next
  case Disconnect
  then show ?thesis
    using disconnectLoop_status_only[of socketId "forInKeys rooms" rooms rid room'] assms
    by (auto simp: engineOrStatus_def onDisconnect_def)
qed

theorem coordinator_writes_status_only_witness:
  "lookupRoom (fst (handle tttGameTypes [(''ab12cd'', waitingRoom)] ''s2''
                      (JoinRoom ''ab12cd'' ''Bob''))) ''ab12cd''
     = Some (waitingRoom \<lparr> players := [alice, bob],
                            gameState := ttt_init \<lparr> status := playing \<rparr> \<rparr>)
   \<and> lookupRoom [(''ab12cd'', waitingRoom)] ''ab12cd'' = Some waitingRoom
   \<and> engineOrStatus (gameInstance waitingRoom) (gameState waitingRoom)
        (ttt_init \<lparr> status := playing \<rparr>)"
proof -
  have a: "lookupRoom (fst (handle tttGameTypes [(''ab12cd'', waitingRoom)] ''s2''
                      (JoinRoom ''ab12cd'' ''Bob''))) ''ab12cd''
     = Some (waitingRoom \<lparr> players := [alice, bob],
                            gameState := ttt_init \<lparr> status := playing \<rparr> \<rparr>)"
    by (simp add: onJoinRoom_def lookupRoom_def waitingRoom_def TicTacToeGame_def
          ttt_getMaxPlayers_def ttt_getPlayerSetup_def bob_def Let_def)
  have b: "lookupRoom [(''ab12cd'', waitingRoom)] ''ab12cd'' = Some waitingRoom"
    by (simp add: lookupRoom_def)
  have "engineOrStatus (gameInstance waitingRoom) (gameState waitingRoom)
        (ttt_init \<lparr> status := playing \<rparr>)"
    using coordinator_writes_status_only[OF a] b by auto
  then show ?thesis using a b by (intro conjI)
qed

text \<open>
  Claim C9 does not hold as stated. The handler of \<^verbatim>\<open>resetGame\<close> does not look at the
  sender: a \<^verbatim>\<open>resetGame\<close> event sent by a spectator of a room replaces the state of that
  room.
\<close>

theorem spectator_resets_counterexample:
  "lookupRoom [(''ab12cd'', fullRoom)] ''ab12cd'' = Some fullRoom
   \<and> spectatorOnly fullRoom ''s3''
   \<and> map_option gameState
        (lookupRoom (fst (handle tttGameTypes [(''ab12cd'', fullRoom)] ''s3''
                            (ResetGame ''ab12cd''))) ''ab12cd'')
       = Some (ttt_init \<lparr> status := playing \<rparr>)
   \<and> ttt_init \<lparr> status := playing \<rparr> \<noteq> gameState fullRoom"
  by (simp add: lookupRoom_def spectatorOnly_def fullRoom_def alice_def bob_def carol_def
        onResetGame_def TicTacToeGame_def ttt_init_def tttMidGame_def Let_def)

text \<open>
  Claim C9, amended. Let a socket be a spectator of a room and have no seat in it. The
  state of the room is the same after every event the socket sends, a \<^verbatim>\<open>makeMove\<close> or its
  disconnection in particular, that is not a \<^verbatim>\<open>resetGame\<close> of the room, nor a \<^verbatim>\<open>joinRoom\<close>
  of the room while it has a free seat, nor a \<^verbatim>\<open>createRoom\<close> whose new identifier is the
  room's.
\<close>

theorem spectator_cannot_move:
  assumes "lookupRoom rooms rid = Some room"
    and "spectatorOnly room socketId"
    and "sparesRoom rid room ev"
  shows "map_option gameState (lookupRoom (fst (handle gameTypes rooms socketId ev)) rid)
           = Some (gameState room)"
proof (cases ev)
  case (CreateRoom name gameTypeArg uuid)
  then show ?thesis using assms
    by (auto simp: onCreateRoom_def Let_def lookup_setRoom split: option.splits)
next
  case (JoinRoom r name)
  then show ?thesis using assms
    by (auto simp: onJoinRoom_def Let_def lookup_setRoom split: option.splits)
next
  case (MakeMove r move)
  have "find (\<lambda>p. sockId p = socketId) (players room) = None"
    using assms(2) by (simp add: spectatorOnly_def find_None_not_member)
  then show ?thesis using assms(1) MakeMove
    by (cases "r = rid")
       (auto simp: onMakeMove_def Let_def lookup_setRoom split: option.splits returned.splits)
next
  case (ResetGame r)
  then show ?thesis using assms
    by (auto simp: onResetGame_def Let_def lookup_setRoom split: option.splits)
next
  case Disconnect
  have "socketId \<notin> set (map sockId (players room))"
    using assms(2) by (simp add: spectatorOnly_def)
  from disconnectLoop_keeps_state[OF assms(1) this, of "forInKeys rooms"]
  show ?thesis using Disconnect by (auto simp: onDisconnect_def)
qed

theorem spectator_cannot_move_witness:
  "lookupRoom [(''ab12cd'', fullRoom)] ''ab12cd'' = Some fullRoom
   \<and> spectatorOnly fullRoom ''s3''
   \<and> sparesRoom ''ab12cd'' fullRoom (MakeMove ''ab12cd'' 0)
   \<and> map_option gameState
        (lookupRoom (fst (handle tttGameTypes [(''ab12cd'', fullRoom)] ''s3''
                            (MakeMove ''ab12cd'' 0))) ''ab12cd'')
       = Some tttMidGame"
proof -
  have l: "lookupRoom [(''ab12cd'', fullRoom)] ''ab12cd'' = Some fullRoom"
    by (simp add: lookupRoom_def)
  have s: "spectatorOnly fullRoom ''s3''"
    by (simp add: spectatorOnly_def fullRoom_def alice_def bob_def carol_def)
  have k: "sparesRoom ''ab12cd'' fullRoom (MakeMove ''ab12cd'' 0)" by simp
  have g: "gameState fullRoom = tttMidGame" by (simp add: fullRoom_def)
  show ?thesis
    using spectator_cannot_move[OF l s k, of tttGameTypes] l s k g by simp
qed



end
